theory Spec2Isabelle
  imports Complex_Main "HOL-Library.Sublist"
begin

section \<open>Python values\<close>

text \<open>
  The client is Python. The exceptions that its code, \<^verbatim>\<open>json\<close>, \<^verbatim>\<open>bytes.decode\<close>,
  \<^verbatim>\<open>print\<close> and \<^verbatim>\<open>open\<close> can raise are values of \<open>py_error\<close>; a computation that may raise
  returns \<open>py_error + 'a\<close>, with \<open>Inl\<close> for the exception.
\<close>

datatype py_error =
    RuntimeError string
  | ClickException string
  | JSONDecodeError
  | UnicodeDecodeError
  | UnicodeEncodeError
  | AttributeError
  | TypeError
  | KeyError
  | OSError
  | RecursionError

text \<open>
  A Python \<^verbatim>\<open>str\<close> is modelled by the bytes of its UTF-8 encoding (\<open>string\<close>), so that
  the ASCII literals of the source are the literals of the model, and \<^verbatim>\<open>bytes\<close> are a
  \<open>string\<close> as well. A \<^verbatim>\<open>float\<close> is kept as the rational it stands for: the client
  only ever asks whether it is zero.
\<close>

datatype pyfloat = Finite rat | PosInfinity | NegInfinity | NotANumber

text \<open>
  What \<^verbatim>\<open>json.loads\<close> can return. A \<^verbatim>\<open>dict\<close> is the list of its items in
  insertion order; a key is looked up from the front.
\<close>

datatype pyval =
    PyNone
  | PyBool bool
  | PyInt int
  | PyFloat pyfloat
  | PyStr string
  | PyList "pyval list"
  | PyDict "(string \<times> pyval) list"

text \<open>Truth value testing, as \<^verbatim>\<open>if x:\<close> and \<^verbatim>\<open>x and y\<close> do it.\<close>

fun truthy :: "pyval \<Rightarrow> bool" where
  "truthy PyNone = False"
| "truthy (PyBool b) = b"
| "truthy (PyInt i) = (i \<noteq> 0)"
| "truthy (PyFloat f) = (f \<noteq> Finite 0)"
| "truthy (PyStr s) = (s \<noteq> [])"
| "truthy (PyList xs) = (xs \<noteq> [])"
| "truthy (PyDict kvs) = (kvs \<noteq> [])"

text \<open>\<^verbatim>\<open>x.get(key)\<close>: only a dict has the method; a missing key gives \<^verbatim>\<open>None\<close>.\<close>

fun py_get :: "pyval \<Rightarrow> string \<Rightarrow> py_error + pyval" where
  "py_get (PyDict kvs) k = Inr (case map_of kvs k of None \<Rightarrow> PyNone | Some v \<Rightarrow> v)"
| "py_get _ k = Inl AttributeError"

text \<open>\<^verbatim>\<open>x.get(key, default)\<close>.\<close>

fun py_get_default :: "pyval \<Rightarrow> string \<Rightarrow> pyval \<Rightarrow> py_error + pyval" where
  "py_get_default (PyDict kvs) k d = Inr (case map_of kvs k of None \<Rightarrow> d | Some v \<Rightarrow> v)"
| "py_get_default _ k d = Inl AttributeError"

text \<open>\<^verbatim>\<open>x[key]\<close> for a string key.\<close>

fun py_item :: "pyval \<Rightarrow> string \<Rightarrow> py_error + pyval" where
  "py_item (PyDict kvs) k = (case map_of kvs k of None \<Rightarrow> Inl KeyError | Some v \<Rightarrow> Inr v)"
| "py_item _ k = Inl TypeError"

text \<open>
  The items a \<^verbatim>\<open>for\<close> loop visits: the elements of a list, the keys of a dict, the
  characters of a str; nothing else that JSON yields is iterable.
\<close>

definition is_continuation :: "char \<Rightarrow> bool" where
  "is_continuation c = (128 \<le> (of_char c :: nat) \<and> (of_char c :: nat) < 192)"

function characters :: "string \<Rightarrow> string list" where
  "characters [] = []"
| "characters (c # cs) =
     (c # takeWhile is_continuation cs) # characters (dropWhile is_continuation cs)"
  by pat_completeness auto
termination
  by (relation "measure length") (auto simp: length_dropWhile_le less_Suc_eq_le)

fun py_iter :: "pyval \<Rightarrow> py_error + pyval list" where
  "py_iter (PyList xs) = Inr xs"
| "py_iter (PyDict kvs) = Inr (map (\<lambda>kv. PyStr (fst kv)) kvs)"
| "py_iter (PyStr s) = Inr (map PyStr (characters s))"
| "py_iter _ = Inl TypeError"

text \<open>Sequencing of computations that may raise.\<close>

definition bind :: "py_error + 'a \<Rightarrow> ('a \<Rightarrow> py_error + 'b) \<Rightarrow> py_error + 'b" where
  "bind m f = (case m of Inl e \<Rightarrow> Inl e | Inr x \<Rightarrow> f x)"

section \<open>Text\<close>

text \<open>\<^verbatim>\<open>s.startswith(p)\<close>.\<close>

definition startswith :: "string \<Rightarrow> string \<Rightarrow> bool" where
  "startswith s p = prefix p s"

text \<open>
  The characters \<^verbatim>\<open>str.strip()\<close> removes, each as its UTF-8 encoding: the ASCII ones
  (tab to carriage return, the four separators 0x1C to 0x1F, space), and U+0085, U+00A0,
  U+1680, U+2000 to U+200A, U+2028, U+2029, U+202F, U+205F and U+3000.
\<close>

definition py_whitespace :: "string list" where
  "py_whitespace =
     [[CHR 0x09], [CHR 0x0A], [CHR 0x0B], [CHR 0x0C], [CHR 0x0D],
      [CHR 0x1C], [CHR 0x1D], [CHR 0x1E], [CHR 0x1F], [CHR 0x20],
      [CHR 0xC2, CHR 0x85], [CHR 0xC2, CHR 0xA0],
      [CHR 0xE1, CHR 0x9A, CHR 0x80],
      [CHR 0xE2, CHR 0x80, CHR 0x80], [CHR 0xE2, CHR 0x80, CHR 0x81],
      [CHR 0xE2, CHR 0x80, CHR 0x82], [CHR 0xE2, CHR 0x80, CHR 0x83],
      [CHR 0xE2, CHR 0x80, CHR 0x84], [CHR 0xE2, CHR 0x80, CHR 0x85],
      [CHR 0xE2, CHR 0x80, CHR 0x86], [CHR 0xE2, CHR 0x80, CHR 0x87],
      [CHR 0xE2, CHR 0x80, CHR 0x88], [CHR 0xE2, CHR 0x80, CHR 0x89],
      [CHR 0xE2, CHR 0x80, CHR 0x8A],
      [CHR 0xE2, CHR 0x80, CHR 0xA8], [CHR 0xE2, CHR 0x80, CHR 0xA9],
      [CHR 0xE2, CHR 0x80, CHR 0xAF], [CHR 0xE2, CHR 0x81, CHR 0x9F],
      [CHR 0xE3, CHR 0x80, CHR 0x80]]"

text \<open>
  \<open>strip_leading ws s\<close> removes from the front of \<open>s\<close> every occurrence of a sequence
  of \<open>ws\<close>; \<open>space_width\<close> is the length of the sequence found at the front, 0 when
  there is none.
\<close>

definition space_width :: "string list \<Rightarrow> string \<Rightarrow> nat" where
  "space_width ws s = (case find (\<lambda>w. prefix w s) ws of None \<Rightarrow> 0 | Some w \<Rightarrow> length w)"

fun strip_leading :: "string list \<Rightarrow> string \<Rightarrow> string" where
  "strip_leading ws [] = []"
| "strip_leading ws (c # cs) =
     (case space_width ws (c # cs) of
        0 \<Rightarrow> c # cs
      | Suc n \<Rightarrow> strip_leading ws (drop n cs))"

definition lstrip :: "string \<Rightarrow> string" where
  "lstrip s = strip_leading py_whitespace s"

definition rstrip :: "string \<Rightarrow> string" where
  "rstrip s = rev (strip_leading (map rev py_whitespace) (rev s))"

text \<open>\<^verbatim>\<open>s.strip()\<close>.\<close>

definition strip :: "string \<Rightarrow> string" where
  "strip s = rstrip (lstrip s)"

text \<open>
  \<^verbatim>\<open>b.decode('utf-8')\<close>: the bytes must be well-formed UTF-8 (no overlong form, no
  surrogate, nothing above U+10FFFF), or \<^verbatim>\<open>UnicodeDecodeError\<close> is raised.
  \<open>trail lo hi n s\<close>: \<open>s\<close> starts with \<open>n\<close> trailing bytes, the first in \<open>lo..hi\<close>.
\<close>

definition between :: "nat \<Rightarrow> nat \<Rightarrow> char \<Rightarrow> bool" where
  "between lo hi c = (lo \<le> of_char c \<and> (of_char c :: nat) \<le> hi)"

definition trail :: "nat \<Rightarrow> nat \<Rightarrow> nat \<Rightarrow> string \<Rightarrow> bool" where
  "trail lo hi n s =
     (n \<le> length s \<and> (case take n s of [] \<Rightarrow> True
                         | c # cs \<Rightarrow> between lo hi c \<and> list_all (between 0x80 0xBF) cs))"

fun utf8_wellformed :: "string \<Rightarrow> bool" where
  "utf8_wellformed [] = True"
| "utf8_wellformed (c # s) =
     (if between 0x00 0x7F c then utf8_wellformed s
      else if between 0xC2 0xDF c then trail 0x80 0xBF 1 s \<and> utf8_wellformed (drop 1 s)
      else if between 0xE0 0xE0 c then trail 0xA0 0xBF 2 s \<and> utf8_wellformed (drop 2 s)
      else if between 0xE1 0xEC c then trail 0x80 0xBF 2 s \<and> utf8_wellformed (drop 2 s)
      else if between 0xED 0xED c then trail 0x80 0x9F 2 s \<and> utf8_wellformed (drop 2 s)
      else if between 0xEE 0xEF c then trail 0x80 0xBF 2 s \<and> utf8_wellformed (drop 2 s)
      else if between 0xF0 0xF0 c then trail 0x90 0xBF 3 s \<and> utf8_wellformed (drop 3 s)
      else if between 0xF1 0xF3 c then trail 0x80 0xBF 3 s \<and> utf8_wellformed (drop 3 s)
      else if between 0xF4 0xF4 c then trail 0x80 0x8F 3 s \<and> utf8_wellformed (drop 3 s)
      else False)"

definition decode_utf8 :: "string \<Rightarrow> py_error + string" where
  "decode_utf8 b = (if utf8_wellformed b then Inr b else Inl UnicodeDecodeError)"

text \<open>\<^verbatim>\<open>str(n)\<close> for an integer: its decimal digits, after a minus sign when negative.\<close>

definition digit :: "nat \<Rightarrow> char" where
  "digit d = char_of (48 + d)"

fun str_nat :: "nat \<Rightarrow> string" where
  "str_nat n = (if n < 10 then [digit n] else str_nat (n div 10) @ [digit (n mod 10)])"

declare str_nat.simps [simp del]

definition str_int :: "int \<Rightarrow> string" where
  "str_int i = (if i < 0 then CHR ''-'' # str_nat (nat (- i)) else str_nat (nat i))"

section \<open>The transport and the rest of the world\<close>

text \<open>
  A request as the client hands it to \<^verbatim>\<open>aiohttp\<close>: the HTTP method, the URL, and the
  \<^verbatim>\<open>json=\<close> or \<^verbatim>\<open>data=\<close> keyword argument. A form field is
  \<^verbatim>\<open>add_field(name, file, filename=...)\<close> with the bytes of the file, or
  \<^verbatim>\<open>add_field(name, value)\<close>.
\<close>

datatype form_field = FileField string string string | ValueField string string

datatype payload = NoPayload | JsonPayload pyval | FormData "form_field list"

record http_request =
  verb :: string
  url :: string
  kwargs :: payload

text \<open>
  A response, by what the client reads of it: \<^verbatim>\<open>response.status\<close>,
  \<^verbatim>\<open>response.content_type\<close>, what \<^verbatim>\<open>await response.text()\<close> and
  \<^verbatim>\<open>await response.json()\<close> give, and the lines that iterating
  \<^verbatim>\<open>response.content\<close> yields, as bytes.
\<close>

record http_response =
  status :: int
  content_type :: string
  body_text :: string
  body_json :: "py_error + pyval"
  content :: "string list"

text \<open>
  Everything outside the client is a parameter: the server behind the transport, the
  standard library's \<^verbatim>\<open>json.loads\<close>, the dump of the \<^verbatim>\<open>types.Content\<close> built
  from a message, the files \<^verbatim>\<open>open(path, 'rb')\<close> can read (\<open>None\<close> when it raises),
  \<^verbatim>\<open>str()\<close> of a value that is not a string, as an f-string formats it, and the
  texts that the encoding of \<^verbatim>\<open>sys.stdout\<close> can encode.
\<close>

record world =
  server :: "http_request \<Rightarrow> http_response"
  loads :: "string \<Rightarrow> py_error + pyval"
  model_dump :: "string \<Rightarrow> pyval"
  open_rb :: "string \<Rightarrow> string option"
  to_str :: "pyval \<Rightarrow> string"
  stdout_encodes :: "string \<Rightarrow> bool"

text \<open>
  What a call did: the value it returned or the exception it raised, the requests it
  issued, and what it wrote to the terminal, each in order.
\<close>

record 'a call =
  outcome :: "py_error + 'a"
  requests :: "http_request list"
  terminal :: "string list"

section \<open>ApiClient\<close>

datatype client_session = ClientSession

record api_client =
  base_url :: string
  session :: "client_session option"

text \<open>\<^verbatim>\<open>__init__\<close>: \<^verbatim>\<open>base_url.rstrip("/")\<close>, no session yet; \<^verbatim>\<open>__aenter__\<close> opens one.\<close>

definition ApiClient :: "string \<Rightarrow> api_client" where
  "ApiClient b =
     \<lparr>base_url = rev (dropWhile (\<lambda>c. c = CHR ''/'') (rev b)), session = None\<rparr>"

definition aenter :: "api_client \<Rightarrow> api_client" where
  "aenter self = self\<lparr>session := Some ClientSession\<rparr>"

text \<open>The message of the \<^verbatim>\<open>ClickException\<close>: \<^verbatim>\<open>f"HTTP {response.status}: {error_text}"\<close>.\<close>

definition http_error :: "int \<Rightarrow> string \<Rightarrow> string" where
  "http_error st error_text = ''HTTP '' @ str_int st @ '': '' @ error_text"

subsection \<open>The streaming decoder\<close>

text \<open>
  The decoder's variables: \<^verbatim>\<open>result\<close>, and the terminal, as the list of the strings
  that \<^verbatim>\<open>print(..., end='', flush=True)\<close> wrote. A loop returns the exception that
  ended it, if any, and the state it left.
\<close>

record stream_state =
  result :: string
  printed :: "string list"

text \<open>\<^verbatim>\<open>result += x\<close>: a str takes only a str.\<close>

fun str_add :: "string \<Rightarrow> pyval \<Rightarrow> py_error + string" where
  "str_add r (PyStr s) = Inr (r @ s)"
| "str_add r _ = Inl TypeError"

text \<open>
  \<^verbatim>\<open>str(x)\<close>, which \<^verbatim>\<open>print\<close> and an f-string write for \<^verbatim>\<open>x\<close>: a str as it is.
\<close>

fun format_value :: "world \<Rightarrow> pyval \<Rightarrow> string" where
  "format_value w (PyStr s) = s"
| "format_value w v = to_str w v"

text \<open>
  \<^verbatim>\<open>print(x, end='', flush=True)\<close> encodes \<^verbatim>\<open>str(x)\<close> for the terminal and writes it,
  or raises \<^verbatim>\<open>UnicodeEncodeError\<close> and writes nothing. Text that is all ASCII is
  encoded by every encoding a terminal has; for any other text it depends on the
  terminal, and a lone surrogate, which \<^verbatim>\<open>json.loads\<close> makes of an escape such as
  \<^verbatim>\<open>\ud83d\<close>, defeats UTF-8 too.
\<close>

definition ascii :: "string \<Rightarrow> bool" where
  "ascii s = list_all (\<lambda>c. (of_char c :: nat) < 128) s"

definition printable :: "world \<Rightarrow> string \<Rightarrow> bool" where
  "printable w s = (ascii s \<or> stdout_encodes w s)"

definition print_flush ::
  "world \<Rightarrow> stream_state \<Rightarrow> pyval \<Rightarrow> py_error option \<times> stream_state" where
  "print_flush w st x =
     (if printable w (format_value w x)
      then (None, st\<lparr>printed := printed st @ [format_value w x]\<rparr>)
      else (Some UnicodeEncodeError, st))"

text \<open>
  The body of \<^verbatim>\<open>for part in event['content']['parts']\<close>: the test
  \<^verbatim>\<open>part.get('text')\<close>, then \<^verbatim>\<open>result += part['text']\<close>, then
  \<^verbatim>\<open>print(part['text'], end='', flush=True)\<close>. An exception leaves the state as the
  statements before it made it: where \<^verbatim>\<open>print\<close> raises, the text is in \<^verbatim>\<open>result\<close>
  already.
\<close>

definition part_step ::
  "world \<Rightarrow> stream_state \<Rightarrow> pyval \<Rightarrow> py_error option \<times> stream_state" where
  "part_step w st part =
     (case py_get part ''text'' of
        Inl e \<Rightarrow> (Some e, st)
      | Inr t \<Rightarrow>
          if truthy t then
            (case bind (py_item part ''text'') (str_add (result st)) of
               Inl e \<Rightarrow> (Some e, st)
             | Inr r \<Rightarrow>
                 (case py_item part ''text'' of
                    Inl e \<Rightarrow> (Some e, st\<lparr>result := r\<rparr>)
                  | Inr x \<Rightarrow> print_flush w (st\<lparr>result := r\<rparr>) x))
          else (None, st))"

fun for_parts :: "world \<Rightarrow> stream_state \<Rightarrow> pyval list \<Rightarrow> py_error option \<times> stream_state" where
  "for_parts w st [] = (None, st)"
| "for_parts w st (part # parts) =
     (case part_step w st part of
        (None, st') \<Rightarrow> for_parts w st' parts
      | (Some e, st') \<Rightarrow> (Some e, st'))"

text \<open>The test \<^verbatim>\<open>event.get('content') and event['content'].get('parts')\<close>.\<close>

definition has_parts :: "pyval \<Rightarrow> py_error + bool" where
  "has_parts event =
     bind (py_get event ''content'') (\<lambda>c.
       if truthy c then
         bind (py_item event ''content'') (\<lambda>c'.
           bind (py_get c' ''parts'') (\<lambda>ps. Inr (truthy ps)))
       else Inr False)"

definition event_step :: "world \<Rightarrow> stream_state \<Rightarrow> pyval \<Rightarrow> py_error option \<times> stream_state" where
  "event_step w st event =
     (case has_parts event of
        Inl e \<Rightarrow> (Some e, st)
      | Inr b \<Rightarrow>
          if b then
            (case bind (py_item event ''content'') (\<lambda>c. bind (py_item c ''parts'') py_iter) of
               Inl e \<Rightarrow> (Some e, st)
             | Inr parts \<Rightarrow> for_parts w st parts)
          else (None, st))"

text \<open>
  The \<^verbatim>\<open>try\<close> block: \<^verbatim>\<open>json.loads\<close>, then the event; and its handler, which catches
  \<^verbatim>\<open>json.JSONDecodeError\<close> and no other exception.
\<close>

definition try_event :: "world \<Rightarrow> stream_state \<Rightarrow> string \<Rightarrow> py_error option \<times> stream_state" where
  "try_event w st event_data =
     (case loads w event_data of
        Inl e \<Rightarrow> (Some e, st)
      | Inr event \<Rightarrow> event_step w st event)"

definition except_JSONDecodeError ::
  "py_error option \<times> stream_state \<Rightarrow> py_error option \<times> stream_state" where
  "except_JSONDecodeError r = (if fst r = Some JSONDecodeError then (None, snd r) else r)"

text \<open>The body of \<^verbatim>\<open>async for line in response.content\<close>.\<close>

definition line_step :: "world \<Rightarrow> stream_state \<Rightarrow> string \<Rightarrow> py_error option \<times> stream_state" where
  "line_step w st line =
     (case decode_utf8 line of
        Inl e \<Rightarrow> (Some e, st)
      | Inr decoded \<Rightarrow>
          let line_str = strip decoded in
          if startswith line_str ''data: '' then
            let event_data = drop 6 line_str in
            if event_data \<noteq> [] then except_JSONDecodeError (try_event w st event_data)
            else (None, st)
          else (None, st))"

fun stream_loop :: "world \<Rightarrow> stream_state \<Rightarrow> string list \<Rightarrow> py_error option \<times> stream_state" where
  "stream_loop w st [] = (None, st)"
| "stream_loop w st (line # lines) =
     (case line_step w st line of
        (None, st') \<Rightarrow> stream_loop w st' lines
      | (Some e, st') \<Rightarrow> (Some e, st'))"

text \<open>From \<^verbatim>\<open>result = ""\<close> to the end of the stream.\<close>

definition decode_stream :: "world \<Rightarrow> string list \<Rightarrow> py_error option \<times> stream_state" where
  "decode_stream w lines = stream_loop w \<lparr>result = [], printed = []\<rparr> lines"

definition request_data :: "world \<Rightarrow> string \<Rightarrow> string \<Rightarrow> string \<Rightarrow> string \<Rightarrow> bool \<Rightarrow> pyval" where
  "request_data w app_name user_id session_id message streaming =
     PyDict [(''app_name'', PyStr app_name), (''user_id'', PyStr user_id),
             (''session_id'', PyStr session_id), (''new_message'', model_dump w message),
             (''streaming'', PyBool streaming)]"

text \<open>
  \<^verbatim>\<open>run_agent_streaming\<close> posts through \<^verbatim>\<open>self.session\<close> itself: where there is no
  session, \<^verbatim>\<open>None.post\<close> is an \<^verbatim>\<open>AttributeError\<close>.
\<close>

definition run_sse_request ::
  "world \<Rightarrow> api_client \<Rightarrow> string \<Rightarrow> string \<Rightarrow> string \<Rightarrow> string \<Rightarrow> http_request" where
  "run_sse_request w self app_name user_id session_id message =
     \<lparr>verb = ''POST'', url = base_url self @ ''/run_sse'',
      kwargs = JsonPayload (request_data w app_name user_id session_id message True)\<rparr>"

definition run_agent_streaming ::
  "world \<Rightarrow> api_client \<Rightarrow> string \<Rightarrow> string \<Rightarrow> string \<Rightarrow> string \<Rightarrow> string call" where
  "run_agent_streaming w self app_name user_id session_id message =
     (case session self of
        None \<Rightarrow> \<lparr>outcome = Inl AttributeError, requests = [], terminal = []\<rparr>
      | Some s \<Rightarrow>
          let request = run_sse_request w self app_name user_id session_id message;
              response = server w request
          in if status response \<ge> 400 then
               \<lparr>outcome = Inl (ClickException
                   (http_error (status response) (body_text response))),
                requests = [request], terminal = []\<rparr>
             else
               (case decode_stream w (content response) of
                  (None, st) \<Rightarrow>
                    \<lparr>outcome = Inr (result st), requests = [request], terminal = printed st\<rparr>
                | (Some e, st) \<Rightarrow>
                    \<lparr>outcome = Inl e, requests = [request], terminal = printed st\<rparr>))"

subsection \<open>One-shot requests\<close>

text \<open>
  \<^verbatim>\<open>_request\<close>. A \<^verbatim>\<open>ClientSession\<close> is always true, so \<^verbatim>\<open>not self.session\<close>
  holds exactly when there is none.
\<close>

definition request :: "world \<Rightarrow> api_client \<Rightarrow> string \<Rightarrow> string \<Rightarrow> payload \<Rightarrow> pyval call" where
  "request w self method endpoint kw =
     (case session self of
        None \<Rightarrow>
          \<lparr>outcome = Inl (RuntimeError ''Client not initialized. Use async context manager.''),
           requests = [], terminal = []\<rparr>
      | Some s \<Rightarrow>
          let req = \<lparr>verb = method, url = base_url self @ endpoint, kwargs = kw\<rparr>;
              response = server w req
          in \<lparr>outcome =
                (if status response \<ge> 400 then
                   Inl (ClickException (http_error (status response) (body_text response)))
                 else if content_type response = ''application/json'' then body_json response
                 else Inr (PyDict [(''text'', PyStr (body_text response))])),
              requests = [req], terminal = []\<rparr>)"

text \<open>A method that awaits a request and returns nothing returns \<^verbatim>\<open>None\<close>.\<close>

definition returning_None :: "pyval call \<Rightarrow> pyval call" where
  "returning_None c =
     c\<lparr>outcome := (case outcome c of Inl e \<Rightarrow> Inl e | Inr v \<Rightarrow> Inr PyNone)\<rparr>"

text \<open>An \<^verbatim>\<open>Optional[str]\<close> argument as a value.\<close>

fun optional :: "string option \<Rightarrow> pyval" where
  "optional None = PyNone"
| "optional (Some s) = PyStr s"

definition list_apps :: "world \<Rightarrow> api_client \<Rightarrow> pyval call" where
  "list_apps w self = request w self ''GET'' ''/list-apps'' NoPayload"

definition create_session ::
  "world \<Rightarrow> api_client \<Rightarrow> string \<Rightarrow> string \<Rightarrow> string option \<Rightarrow> pyval \<Rightarrow> pyval call" where
  "create_session w self app_name user_id session_id state =
     (let endpoint =
            (if truthy (optional session_id) then
               ''/apps/'' @ app_name @ ''/users/'' @ user_id @ ''/sessions/''
                 @ format_value w (optional session_id)
             else ''/apps/'' @ app_name @ ''/users/'' @ user_id @ ''/sessions'');
          json_data = (if truthy state then PyDict [(''state'', state)] else PyDict [])
      in request w self ''POST'' endpoint (JsonPayload json_data))"

definition get_session :: "world \<Rightarrow> api_client \<Rightarrow> string \<Rightarrow> string \<Rightarrow> string \<Rightarrow> pyval call" where
  "get_session w self app_name user_id session_id =
     request w self ''GET''
       (''/apps/'' @ app_name @ ''/users/'' @ user_id @ ''/sessions/'' @ session_id) NoPayload"

definition list_sessions :: "world \<Rightarrow> api_client \<Rightarrow> string \<Rightarrow> string \<Rightarrow> pyval call" where
  "list_sessions w self app_name user_id =
     request w self ''GET'' (''/apps/'' @ app_name @ ''/users/'' @ user_id @ ''/sessions'')
       NoPayload"

definition delete_session :: "world \<Rightarrow> api_client \<Rightarrow> string \<Rightarrow> string \<Rightarrow> string \<Rightarrow> pyval call" where
  "delete_session w self app_name user_id session_id =
     returning_None (request w self ''DELETE''
       (''/apps/'' @ app_name @ ''/users/'' @ user_id @ ''/sessions/'' @ session_id) NoPayload)"

definition run_request ::
  "world \<Rightarrow> api_client \<Rightarrow> string \<Rightarrow> string \<Rightarrow> string \<Rightarrow> string \<Rightarrow> bool \<Rightarrow> http_request" where
  "run_request w self app_name user_id session_id message streaming =
     \<lparr>verb = ''POST'', url = base_url self @ ''/run'',
      kwargs = JsonPayload (request_data w app_name user_id session_id message streaming)\<rparr>"

definition run_agent ::
  "world \<Rightarrow> api_client \<Rightarrow> string \<Rightarrow> string \<Rightarrow> string \<Rightarrow> string \<Rightarrow> bool \<Rightarrow> pyval call" where
  "run_agent w self app_name user_id session_id message streaming =
     request w self ''POST'' ''/run''
       (JsonPayload (request_data w app_name user_id session_id message streaming))"

definition list_artifacts :: "world \<Rightarrow> api_client \<Rightarrow> string \<Rightarrow> string \<Rightarrow> string \<Rightarrow> pyval call" where
  "list_artifacts w self app_name user_id session_id =
     request w self ''GET''
       (''/apps/'' @ app_name @ ''/users/'' @ user_id @ ''/sessions/'' @ session_id
          @ ''/artifacts'') NoPayload"

definition get_artifact ::
  "world \<Rightarrow> api_client \<Rightarrow> string \<Rightarrow> string \<Rightarrow> string \<Rightarrow> string \<Rightarrow> int option \<Rightarrow> pyval call" where
  "get_artifact w self app_name user_id session_id artifact_name version =
     (let endpoint =
            (case version of
               Some v \<Rightarrow>
                 ''/apps/'' @ app_name @ ''/users/'' @ user_id @ ''/sessions/'' @ session_id
                   @ ''/artifacts/'' @ artifact_name @ ''/versions/'' @ str_int v
             | None \<Rightarrow>
                 ''/apps/'' @ app_name @ ''/users/'' @ user_id @ ''/sessions/'' @ session_id
                   @ ''/artifacts/'' @ artifact_name)
      in request w self ''GET'' endpoint NoPayload)"

text \<open>\<^verbatim>\<open>os.path.basename\<close>: what follows the last slash.\<close>

definition basename :: "string \<Rightarrow> string" where
  "basename p = rev (takeWhile (\<lambda>c. c \<noteq> CHR ''/'') (rev p))"

text \<open>
  \<^verbatim>\<open>upload_artifact\<close> opens the file before it builds the form and calls
  \<^verbatim>\<open>_request\<close>; a file that cannot be opened ends the call there.
\<close>

definition upload_artifact ::
  "world \<Rightarrow> api_client \<Rightarrow> string \<Rightarrow> string \<Rightarrow> string \<Rightarrow> string \<Rightarrow> string option \<Rightarrow> pyval call" where
  "upload_artifact w self app_name user_id session_id file_path artifact_name =
     (let endpoint = ''/apps/'' @ app_name @ ''/users/'' @ user_id @ ''/sessions/''
                       @ session_id @ ''/artifacts/upload'';
          filename = (if truthy (optional artifact_name)
                      then format_value w (optional artifact_name)
                      else basename file_path)
      in case open_rb w file_path of
           None \<Rightarrow> \<lparr>outcome = Inl OSError, requests = [], terminal = []\<rparr>
         | Some f \<Rightarrow>
             let data = [FileField ''file'' f filename]
                          @ (if truthy (optional artifact_name)
                             then [ValueField ''filename'' (format_value w (optional artifact_name))]
                             else [])
             in request w self ''POST'' endpoint (FormData data))"

definition delete_artifact ::
  "world \<Rightarrow> api_client \<Rightarrow> string \<Rightarrow> string \<Rightarrow> string \<Rightarrow> string \<Rightarrow> pyval call" where
  "delete_artifact w self app_name user_id session_id artifact_name =
     returning_None (request w self ''DELETE''
       (''/apps/'' @ app_name @ ''/users/'' @ user_id @ ''/sessions/'' @ session_id
          @ ''/artifacts/'' @ artifact_name) NoPayload)"

definition list_eval_sets :: "world \<Rightarrow> api_client \<Rightarrow> string \<Rightarrow> pyval call" where
  "list_eval_sets w self app_name =
     request w self ''GET'' (''/apps/'' @ app_name @ ''/eval_sets'') NoPayload"

definition create_eval_set :: "world \<Rightarrow> api_client \<Rightarrow> string \<Rightarrow> string \<Rightarrow> pyval call" where
  "create_eval_set w self app_name eval_set_id =
     returning_None (request w self ''POST''
       (''/apps/'' @ app_name @ ''/eval_sets/'' @ eval_set_id) NoPayload)"

definition list_evals_in_set :: "world \<Rightarrow> api_client \<Rightarrow> string \<Rightarrow> string \<Rightarrow> pyval call" where
  "list_evals_in_set w self app_name eval_set_id =
     request w self ''GET'' (''/apps/'' @ app_name @ ''/eval_sets/'' @ eval_set_id @ ''/evals'')
       NoPayload"

text \<open>What a call before \<^verbatim>\<open>__aenter__\<close> comes to in \<^verbatim>\<open>_request\<close>.\<close>

definition not_initialized :: "pyval call" where
  "not_initialized =
     \<lparr>outcome = Inl (RuntimeError ''Client not initialized. Use async context manager.''),
      requests = [], terminal = []\<rparr>"

section \<open>The command surface: \<^verbatim>\<open>agent run\<close>\<close>

text \<open>\<^verbatim>\<open>click.echo(message)\<close> writes the message and a newline.\<close>

definition echo :: "string \<Rightarrow> string" where
  "echo message = message @ [CHR 0x0A]"

text \<open>
  The inner loop collects \<^verbatim>\<open>text_parts\<close>; \<^verbatim>\<open>''.join(text_parts)\<close> takes strs only.
\<close>

fun collect_text :: "pyval list \<Rightarrow> pyval list \<Rightarrow> py_error + pyval list" where
  "collect_text text_parts [] = Inr text_parts"
| "collect_text text_parts (part # parts) =
     bind (py_get part ''text'') (\<lambda>t.
       if truthy t then
         bind (py_item part ''text'') (\<lambda>v. collect_text (text_parts @ [v]) parts)
       else collect_text text_parts parts)"

fun join :: "pyval list \<Rightarrow> py_error + string" where
  "join [] = Inr []"
| "join (PyStr s # vs) = bind (join vs) (\<lambda>r. Inr (s @ r))"
| "join (v # vs) = Inl TypeError"

text \<open>The body of \<^verbatim>\<open>for event in events\<close>: the lines it echoes, or the exception.\<close>

definition render_event :: "world \<Rightarrow> pyval \<Rightarrow> py_error + string list" where
  "render_event w event =
     bind (has_parts event) (\<lambda>b.
       if b then
         bind (bind (py_item event ''content'') (\<lambda>c. bind (py_item c ''parts'') py_iter))
           (\<lambda>parts. bind (collect_text [] parts) (\<lambda>text_parts.
              if truthy (PyList text_parts) then
                bind (py_get_default event ''author'' (PyStr ''agent'')) (\<lambda>author.
                  bind (join text_parts) (\<lambda>joined.
                    Inr [echo (''['' @ format_value w author @ '']: '' @ joined)]))
              else Inr []))
       else Inr [])"

fun render_events :: "world \<Rightarrow> string list \<Rightarrow> pyval list \<Rightarrow> py_error option \<times> string list" where
  "render_events w out [] = (None, out)"
| "render_events w out (event # events) =
     (case render_event w event of
        Inl e \<Rightarrow> (Some e, out)
      | Inr written \<Rightarrow> render_events w (out @ written) events)"

text \<open>
  The command \<^verbatim>\<open>agent run\<close>, inside \<^verbatim>\<open>async with ApiClient(base_url) as client\<close>.
  \<^verbatim>\<open>click.echo\<close> has no \<^verbatim>\<open>end\<close> parameter, so the streaming branch stops at its second
  \<^verbatim>\<open>echo\<close> with a \<^verbatim>\<open>TypeError\<close>.
\<close>

definition cli_run_agent ::
  "world \<Rightarrow> string \<Rightarrow> string \<Rightarrow> string \<Rightarrow> string \<Rightarrow> string \<Rightarrow> bool \<Rightarrow> unit call" where
  "cli_run_agent w url0 app_name user_id session_id message streaming =
     (let client = aenter (ApiClient url0) in
      if streaming then
        \<lparr>outcome = Inl TypeError, requests = [],
         terminal = [echo (''['' @ user_id @ '']: '' @ message)]\<rparr>
      else
        let r = run_agent w client app_name user_id session_id message streaming in
        case outcome r of
          Inl e \<Rightarrow> \<lparr>outcome = Inl e, requests = requests r, terminal = []\<rparr>
        | Inr events \<Rightarrow>
            let out = [echo (''['' @ user_id @ '']: '' @ message)] in
            (case py_iter events of
               Inl e \<Rightarrow> \<lparr>outcome = Inl e, requests = requests r, terminal = out\<rparr>
             | Inr evs \<Rightarrow>
                 (case render_events w out evs of
                    (None, out') \<Rightarrow>
                      \<lparr>outcome = Inr (), requests = requests r, terminal = out'\<rparr>
                  | (Some e, out') \<Rightarrow>
                      \<lparr>outcome = Inl e, requests = requests r, terminal = out'\<rparr>)))"

section \<open>A model of \<^verbatim>\<open>json.loads\<close>\<close>

text \<open>
  The decoder of the standard library, for running the client on concrete streams: the
  scanner for strings, numbers, arrays and objects, with its default settings. Every
  syntax error is the one \<^verbatim>\<open>JSONDecodeError\<close>.
\<close>

definition is_json_space :: "char \<Rightarrow> bool" where
  "is_json_space c = (c = CHR '' '' \<or> c = CHR 0x09 \<or> c = CHR 0x0A \<or> c = CHR 0x0D)"

definition skip_ws :: "string \<Rightarrow> string" where
  "skip_ws s = dropWhile is_json_space s"

definition is_digit :: "char \<Rightarrow> bool" where
  "is_digit c = between 48 57 c"

definition digit_value :: "char \<Rightarrow> nat" where
  "digit_value c = of_char c - 48"

definition decimal :: "string \<Rightarrow> nat" where
  "decimal ds = foldl (\<lambda>a c. 10 * a + digit_value c) 0 ds"

definition hex_value :: "char \<Rightarrow> int option" where
  "hex_value c =
     (if between 48 57 c then Some (of_char c - 48)
      else if between 97 102 c then Some (of_char c - 87)
      else if between 65 70 c then Some (of_char c - 55)
      else None)"

text \<open>The four hexadecimal digits of a \<^verbatim>\<open>\uXXXX\<close> escape.\<close>

definition hex4 :: "string \<Rightarrow> int option" where
  "hex4 s =
     (case map hex_value (take 4 s) of
        [Some a, Some b, Some c, Some d] \<Rightarrow> Some (((a * 16 + b) * 16 + c) * 16 + d)
      | _ \<Rightarrow> None)"

text \<open>
  The UTF-8 encoding of a code point; a lone surrogate, which a \<^verbatim>\<open>str\<close> can hold,
  takes three bytes like its neighbours.
\<close>

definition utf8_encode :: "int \<Rightarrow> string" where
  "utf8_encode cp =
     (if cp < 0x80 then [char_of cp]
      else if cp < 0x800 then [char_of (0xC0 + cp div 64), char_of (0x80 + cp mod 64)]
      else if cp < 0x10000 then
        [char_of (0xE0 + cp div 4096), char_of (0x80 + cp div 64 mod 64),
         char_of (0x80 + cp mod 64)]
      else
        [char_of (0xF0 + cp div 262144), char_of (0x80 + cp div 4096 mod 64),
         char_of (0x80 + cp div 64 mod 64), char_of (0x80 + cp mod 64)])"

definition escape :: "char \<Rightarrow> char option" where
  "escape c =
     (if c = CHR 0x22 then Some (CHR 0x22)
      else if c = CHR 0x5C then Some (CHR 0x5C)
      else if c = CHR ''/'' then Some (CHR ''/'')
      else if c = CHR ''b'' then Some (CHR 0x08)
      else if c = CHR ''f'' then Some (CHR 0x0C)
      else if c = CHR ''n'' then Some (CHR 0x0A)
      else if c = CHR ''r'' then Some (CHR 0x0D)
      else if c = CHR ''t'' then Some (CHR 0x09)
      else None)"

text \<open>
  \<open>unicode_escape s\<close> reads what follows \<^verbatim>\<open>\u\<close>: four digits, and when they are a
  high surrogate and the escape of a low surrogate follows, that one too. It gives the
  code point and the number of characters read.
\<close>

definition unicode_escape :: "string \<Rightarrow> (int \<times> nat) option" where
  "unicode_escape s =
     (case hex4 s of
        None \<Rightarrow> None
      | Some hi \<Rightarrow>
          if 0xD800 \<le> hi \<and> hi \<le> 0xDBFF \<and> take 2 (drop 4 s) = [CHR 0x5C, CHR ''u''] then
            (case hex4 (drop 6 s) of
               None \<Rightarrow> None
             | Some lo \<Rightarrow>
                 if 0xDC00 \<le> lo \<and> lo \<le> 0xDFFF then
                   Some (0x10000 + (hi - 0xD800) * 1024 + (lo - 0xDC00), 10)
                 else Some (hi, 4))
          else Some (hi, 4))"

text \<open>
  \<open>scanstring acc s\<close> reads a string literal after its opening quote, up to the closing
  one; a control character may not stand in it unescaped.
\<close>

function scanstring :: "string \<Rightarrow> string \<Rightarrow> py_error + (string \<times> string)" where
  "scanstring acc [] = Inl JSONDecodeError"
| "scanstring acc (c # s) =
     (if c = CHR 0x22 then Inr (acc, s)
      else if c = CHR 0x5C then
        (case s of
           [] \<Rightarrow> Inl JSONDecodeError
         | e # s' \<Rightarrow>
             if e = CHR ''u'' then
               (case unicode_escape s' of
                  None \<Rightarrow> Inl JSONDecodeError
                | Some (cp, n) \<Rightarrow> scanstring (acc @ utf8_encode cp) (drop n s'))
             else
               (case escape e of
                  None \<Rightarrow> Inl JSONDecodeError
                | Some x \<Rightarrow> scanstring (acc @ [x]) s'))
      else if (of_char c :: nat) < 0x20 then Inl JSONDecodeError
      else scanstring (acc @ [c]) s)"
  by pat_completeness auto
termination
  by (relation "measure (\<lambda>(acc, s). length s)") auto

text \<open>
  A number: an optional minus, \<^verbatim>\<open>0\<close> or digits that do not start with \<^verbatim>\<open>0\<close>, then
  a fraction and an exponent where they are complete. Without fraction and exponent it
  is an \<^verbatim>\<open>int\<close>, otherwise a \<^verbatim>\<open>float\<close>: of its rounding only the two ends are
  modelled, a literal too small for the smallest float is zero and one too large for
  the largest is infinite.
\<close>

definition float_of_rat :: "rat \<Rightarrow> pyfloat" where
  "float_of_rat r =
     (if \<bar>r\<bar> \<le> 1 / 2 ^ 1075 then Finite 0
      else if 2 ^ 1024 - 2 ^ 970 \<le> r then PosInfinity
      else if r \<le> - (2 ^ 1024 - 2 ^ 970) then NegInfinity
      else Finite r)"

definition int_part :: "string \<Rightarrow> string" where
  "int_part s =
     (case s of
        [] \<Rightarrow> []
      | c # r \<Rightarrow> if c = CHR ''0'' then [c] else if is_digit c then c # takeWhile is_digit r else [])"

definition frac_part :: "string \<Rightarrow> string" where
  "frac_part s =
     (case s of
        c # d # r \<Rightarrow> if c = CHR ''.'' \<and> is_digit d then d # takeWhile is_digit r else []
      | _ \<Rightarrow> [])"

text \<open>The exponent at the front of \<open>s\<close>: how many characters it takes, and its value.\<close>

definition exp_part :: "string \<Rightarrow> (nat \<times> int) option" where
  "exp_part s =
     (case s of
        [] \<Rightarrow> None
      | e # r \<Rightarrow>
          if e = CHR ''e'' \<or> e = CHR ''E'' then
            (let signed = (case r of [] \<Rightarrow> False | c # r' \<Rightarrow> c = CHR ''-'' \<or> c = CHR ''+'');
                 negative = (case r of [] \<Rightarrow> False | c # r' \<Rightarrow> c = CHR ''-'');
                 ds = takeWhile is_digit (if signed then drop 1 r else r)
             in if ds = [] then None
                else Some (1 + (if signed then 1 else 0) + length ds,
                           if negative then - int (decimal ds) else int (decimal ds)))
          else None)"

definition match_number :: "string \<Rightarrow> py_error + (pyval \<times> string)" where
  "match_number s =
     (let negative = (case s of [] \<Rightarrow> False | c # r \<Rightarrow> c = CHR ''-'');
          s1 = (if negative then drop 1 s else s);
          ip = int_part s1
      in if ip = [] then Inl JSONDecodeError
         else
           let s2 = drop (length ip) s1;
               fp = frac_part s2;
               s3 = (if fp = [] then s2 else drop (1 + length fp) s2);
               ep = exp_part s3
           in if fp = [] \<and> ep = None then
                Inr (PyInt (if negative then - int (decimal ip) else int (decimal ip)), s3)
              else
                let e = (case ep of None \<Rightarrow> 0 | Some (n, x) \<Rightarrow> x) - int (length fp);
                    m = of_nat (decimal (ip @ fp)) :: rat;
                    r = (if 0 \<le> e then m * 10 ^ nat e else m / 10 ^ nat (- e))
                in Inr (PyFloat (float_of_rat (if negative then - r else r)),
                        drop (case ep of None \<Rightarrow> 0 | Some (n, x) \<Rightarrow> n) s3))"

text \<open>\<^verbatim>\<open>d[key] = value\<close>: a key already there keeps its place.\<close>

fun dict_set :: "string \<Rightarrow> pyval \<Rightarrow> (string \<times> pyval) list \<Rightarrow> (string \<times> pyval) list" where
  "dict_set k v [] = [(k, v)]"
| "dict_set k v (p # ps) = (if fst p = k then (k, v) # ps else p # dict_set k v ps)"

text \<open>
  The scanner. Its first argument bounds the calls still allowed, and running out of
  them is a \<^verbatim>\<open>RecursionError\<close>; \<open>json_loads\<close> allows as many as a text of its
  length can need. \<open>parse_array\<close> and \<open>parse_object\<close> start at an element and at a key, with
  what they have read so far.
\<close>

fun scan_once :: "nat \<Rightarrow> string \<Rightarrow> py_error + (pyval \<times> string)"
  and parse_array :: "nat \<Rightarrow> pyval list \<Rightarrow> string \<Rightarrow> py_error + (pyval \<times> string)"
  and parse_object :: "nat \<Rightarrow> (string \<times> pyval) list \<Rightarrow> string \<Rightarrow> py_error + (pyval \<times> string)"
  where
  "scan_once 0 s = Inl RecursionError"
| "scan_once (Suc n) s =
     (case s of
        [] \<Rightarrow> Inl JSONDecodeError
      | c # r \<Rightarrow>
          if c = CHR 0x22 then
            (case scanstring [] r of Inl e \<Rightarrow> Inl e | Inr (v, r') \<Rightarrow> Inr (PyStr v, r'))
          else if c = CHR ''{'' then
            (if take 1 (skip_ws r) = ''}'' then Inr (PyDict [], drop 1 (skip_ws r))
             else parse_object n [] (skip_ws r))
          else if c = CHR ''['' then
            (if take 1 (skip_ws r) = '']'' then Inr (PyList [], drop 1 (skip_ws r))
             else parse_array n [] (skip_ws r))
          else if prefix ''null'' s then Inr (PyNone, drop 4 s)
          else if prefix ''true'' s then Inr (PyBool True, drop 4 s)
          else if prefix ''false'' s then Inr (PyBool False, drop 5 s)
          else if prefix ''NaN'' s then Inr (PyFloat NotANumber, drop 3 s)
          else if prefix ''Infinity'' s then Inr (PyFloat PosInfinity, drop 8 s)
          else if prefix ''-Infinity'' s then Inr (PyFloat NegInfinity, drop 9 s)
          else match_number s)"
| "parse_array 0 acc s = Inl RecursionError"
| "parse_array (Suc n) acc s =
     (case scan_once n s of
        Inl e \<Rightarrow> Inl e
      | Inr (v, r) \<Rightarrow>
          if take 1 (skip_ws r) = '']'' then Inr (PyList (acc @ [v]), drop 1 (skip_ws r))
          else if take 1 (skip_ws r) = '','' then
            parse_array n (acc @ [v]) (skip_ws (drop 1 (skip_ws r)))
          else Inl JSONDecodeError)"
| "parse_object 0 acc s = Inl RecursionError"
| "parse_object (Suc n) acc s =
     (if take 1 s = [CHR 0x22] then
        (case scanstring [] (drop 1 s) of
           Inl e \<Rightarrow> Inl e
         | Inr (key, r) \<Rightarrow>
             if take 1 (skip_ws r) = '':'' then
               (case scan_once n (skip_ws (drop 1 (skip_ws r))) of
                  Inl e \<Rightarrow> Inl e
                | Inr (v, r') \<Rightarrow>
                    if take 1 (skip_ws r') = ''}'' then
                      Inr (PyDict (dict_set key v acc), drop 1 (skip_ws r'))
                    else if take 1 (skip_ws r') = '','' then
                      parse_object n (dict_set key v acc) (skip_ws (drop 1 (skip_ws r')))
                    else Inl JSONDecodeError)
             else Inl JSONDecodeError)
      else Inl JSONDecodeError)"

definition json_loads :: "string \<Rightarrow> py_error + pyval" where
  "json_loads s =
     (case scan_once (Suc (2 * length s)) (skip_ws s) of
        Inl e \<Rightarrow> Inl e
      | Inr (v, r) \<Rightarrow> if skip_ws r = [] then Inr v else Inl JSONDecodeError)"

section \<open>What the specification says of a stream\<close>

text \<open>
  The specification describes the decoder frame by frame. The definitions of this
  section follow its words, not the loop, and the theorems compare the two.

  A frame's payload: the line trimmed, if it starts with \<^verbatim>\<open>data: \<close> and something
  follows the prefix.
\<close>

definition frame_payload :: "string \<Rightarrow> string option" where
  "frame_payload line =
     (case decode_utf8 line of
        Inl e \<Rightarrow> None
      | Inr decoded \<Rightarrow>
          if startswith (strip decoded) ''data: '' \<and> drop 6 (strip decoded) \<noteq> []
          then Some (drop 6 (strip decoded)) else None)"

text \<open>The event of a successfully parsed frame.\<close>

definition parsed_frame :: "world \<Rightarrow> string \<Rightarrow> pyval option" where
  "parsed_frame w line =
     (case frame_payload line of
        None \<Rightarrow> None
      | Some p \<Rightarrow> (case loads w p of Inl e \<Rightarrow> None | Inr event \<Rightarrow> Some event))"

text \<open>
  The \<^verbatim>\<open>content.parts\<close> of an event, an ordered sequence, and the text value a part
  carries.
\<close>

definition content_parts :: "pyval \<Rightarrow> pyval list" where
  "content_parts event =
     (case event of
        PyDict kvs \<Rightarrow>
          (case map_of kvs ''content'' of
             Some (PyDict c) \<Rightarrow>
               (case map_of c ''parts'' of Some (PyList parts) \<Rightarrow> parts | _ \<Rightarrow> [])
           | _ \<Rightarrow> [])
      | _ \<Rightarrow> [])"

definition part_texts :: "pyval \<Rightarrow> string list" where
  "part_texts part =
     (case part of
        PyDict kvs \<Rightarrow> (case map_of kvs ''text'' of Some (PyStr s) \<Rightarrow> [s] | _ \<Rightarrow> [])
      | _ \<Rightarrow> [])"

definition event_texts :: "pyval \<Rightarrow> string list" where
  "event_texts event = concat (map part_texts (content_parts event))"

text \<open>Every text value of every successfully parsed frame, in stream order.\<close>

definition frame_texts :: "world \<Rightarrow> string \<Rightarrow> string list" where
  "frame_texts w line = (case parsed_frame w line of None \<Rightarrow> [] | Some event \<Rightarrow> event_texts event)"

definition stream_texts :: "world \<Rightarrow> string list \<Rightarrow> string list" where
  "stream_texts w lines = concat (map (frame_texts w) lines)"

text \<open>The fragments: the text values that are not empty.\<close>

definition fragments :: "world \<Rightarrow> string list \<Rightarrow> string list" where
  "fragments w lines = filter (\<lambda>s. s \<noteq> []) (stream_texts w lines)"

text \<open>
  The shape of an event,
  \<^verbatim>\<open>{author?: string, content?: {role?: string, parts: [{text?: string, ...}]}}\<close>, as far
  as the decoder depends on it: an object; its \<^verbatim>\<open>content\<close>, unless absent or false, an
  object; the \<^verbatim>\<open>parts\<close> of that, unless absent or false, a list of objects; the
  \<^verbatim>\<open>text\<close> of each, unless absent or false, a string.
\<close>

definition part_shaped :: "pyval \<Rightarrow> bool" where
  "part_shaped part =
     (case part of
        PyDict kvs \<Rightarrow>
          (case map_of kvs ''text'' of
             None \<Rightarrow> True
           | Some t \<Rightarrow> if truthy t then (case t of PyStr s \<Rightarrow> True | _ \<Rightarrow> False) else True)
      | _ \<Rightarrow> False)"

definition content_shaped :: "pyval \<Rightarrow> bool" where
  "content_shaped c =
     (case c of
        PyDict kvs \<Rightarrow>
          (case map_of kvs ''parts'' of
             None \<Rightarrow> True
           | Some ps \<Rightarrow>
               if truthy ps then (case ps of PyList parts \<Rightarrow> list_all part_shaped parts | _ \<Rightarrow> False)
               else True)
      | _ \<Rightarrow> False)"

definition event_shaped :: "pyval \<Rightarrow> bool" where
  "event_shaped event =
     (case event of
        PyDict kvs \<Rightarrow>
          (case map_of kvs ''content'' of
             None \<Rightarrow> True
           | Some c \<Rightarrow> if truthy c then content_shaped c else True)
      | _ \<Rightarrow> False)"

text \<open>
  A line the decoder can take: it is UTF-8, and if it is a frame with a payload, the
  payload either fails to parse with \<^verbatim>\<open>JSONDecodeError\<close> or parses to an event of
  that shape whose text values the terminal can encode.
\<close>

definition line_ok :: "world \<Rightarrow> string \<Rightarrow> bool" where
  "line_ok w line =
     (utf8_wellformed line \<and>
      (case frame_payload line of
         None \<Rightarrow> True
       | Some p \<Rightarrow>
           (case loads w p of
              Inl e \<Rightarrow> e = JSONDecodeError
            | Inr event \<Rightarrow> event_shaped event \<and> list_all (printable w) (event_texts event))))"

definition stream_ok :: "world \<Rightarrow> string list \<Rightarrow> bool" where
  "stream_ok w lines = list_all (line_ok w) lines"

text \<open>
  An event without the \<^verbatim>\<open>content.parts\<close> structure: an object whose \<^verbatim>\<open>content\<close> is
  absent or false, or an object whose \<^verbatim>\<open>parts\<close> are absent or false.
\<close>

definition lacks_parts :: "pyval \<Rightarrow> bool" where
  "lacks_parts event =
     (case event of
        PyDict kvs \<Rightarrow>
          (case map_of kvs ''content'' of
             None \<Rightarrow> True
           | Some c \<Rightarrow>
               if truthy c then
                 (case c of
                    PyDict ckvs \<Rightarrow>
                      (case map_of ckvs ''parts'' of None \<Rightarrow> True | Some ps \<Rightarrow> \<not> truthy ps)
                  | _ \<Rightarrow> False)
               else True)
      | _ \<Rightarrow> False)"

text \<open>
  A line to be ignored: blank or without the prefix once trimmed, or with an empty
  payload, or with a payload that is not JSON, or with an event that has no parts.
\<close>

definition ignorable :: "world \<Rightarrow> string \<Rightarrow> bool" where
  "ignorable w line =
     (utf8_wellformed line \<and>
      (if startswith (strip line) ''data: '' then
         if drop 6 (strip line) = [] then True
         else (case loads w (drop 6 (strip line)) of
                 Inl e \<Rightarrow> e = JSONDecodeError
               | Inr event \<Rightarrow> lacks_parts event)
       else True))"

text \<open>Appending text values to the decoder's state, each one that is not empty a write.\<close>

definition emit :: "stream_state \<Rightarrow> string list \<Rightarrow> stream_state" where
  "emit st ts =
     st\<lparr>result := result st @ concat ts, printed := printed st @ filter (\<lambda>s. s \<noteq> []) ts\<rparr>"

text \<open>
  The state in which a loop can stop at an exception after the text values \<open>ts\<close>: they
  are appended and written, and so is nothing else, unless \<^verbatim>\<open>print\<close> raised on the
  next one, \<open>u\<close>, which is then appended and not written.
\<close>

definition stopped :: "stream_state \<Rightarrow> string list \<Rightarrow> string \<Rightarrow> stream_state" where
  "stopped st ts u = (emit st ts)\<lparr>result := result st @ concat ts @ u\<rparr>"

text \<open>
  Where, among the text values \<open>texts\<close>, such an exception \<open>e\<close> falls: \<open>ts\<close> come first
  among them, and if there is a \<open>u\<close>, it is the next one, the terminal cannot encode it,
  and the exception is that of \<^verbatim>\<open>print\<close>. The exception is never the one the handler
  catches.
\<close>

definition raised_at :: "world \<Rightarrow> string list \<Rightarrow> py_error \<Rightarrow> string list \<Rightarrow> string \<Rightarrow> bool" where
  "raised_at w texts e ts u =
     (e \<noteq> JSONDecodeError \<and> prefix ts texts \<and>
      (u = [] \<or> (prefix (ts @ [u]) texts \<and> \<not> printable w u \<and> e = UnicodeEncodeError)))"

section \<open>Concrete worlds\<close>

text \<open>
  \<open>readlines\<close> cuts a body into the lines a stream reader yields, each with its
  newline. \<open>http_reply\<close> is a response with a status, a content type and a body, and
  \<open>serving r\<close> a world whose server answers every request with \<open>r\<close>, with no readable
  file, with the decoder above for \<^verbatim>\<open>json.loads\<close>, and with a UTF-8 terminal.
\<close>

fun readlines :: "string \<Rightarrow> string \<Rightarrow> string list" where
  "readlines acc [] = (if acc = [] then [] else [acc])"
| "readlines acc (c # s) =
     (if c = CHR 0x0A then (acc @ [c]) # readlines [] s else readlines (acc @ [c]) s)"

definition http_reply :: "int \<Rightarrow> string \<Rightarrow> string \<Rightarrow> http_response" where
  "http_reply st ctype body =
     \<lparr>status = st, content_type = ctype, body_text = body, body_json = json_loads body,
      content = readlines [] body\<rparr>"

definition user_content :: "string \<Rightarrow> pyval" where
  "user_content message =
     PyDict [(''parts'', PyList [PyDict [(''text'', PyStr message)]]), (''role'', PyStr ''user'')]"

definition serving :: "http_response \<Rightarrow> world" where
  "serving r =
     \<lparr>server = (\<lambda>req. r), loads = json_loads, model_dump = user_content,
      open_rb = (\<lambda>path. None), to_str = (\<lambda>v. ''?''), stdout_encodes = utf8_wellformed\<rparr>"

definition newline :: string where
  "newline = [CHR 0x0A]"

text \<open>A client inside its connection scope, and a server that streams a body.\<close>

definition local_client :: api_client where
  "local_client = aenter (ApiClient ''http://localhost:8000'')"

definition event_stream :: "string \<Rightarrow> world" where
  "event_stream body = serving (http_reply 200 ''text/event-stream'' body)"

section \<open>The decoder, frame by frame\<close>

text \<open>
  The loop and the specification's frames agree: a line that the decoder can take adds
  its text values to the state, and any other line raises, after the text values of the
  parts before the one that failed; where it is \<^verbatim>\<open>print\<close> that failed, the text it
  could not write is in the buffer as well.
\<close>

lemma emit_Nil: "emit st [] = st"
  by (simp add: emit_def)

lemma emit_emit: "emit (emit st a) b = emit st (a @ b)"
  by (simp add: emit_def)

lemma result_emit: "result (emit st ts) = result st @ concat ts"
  by (simp add: emit_def)


lemma stopped_Nil: "stopped st ts [] = emit st ts"
  by (simp add: stopped_def emit_def)

lemma stopped_emit: "stopped (emit st a) ts u = stopped st (a @ ts) u"
  by (simp add: stopped_def emit_def)

lemma result_stopped: "result (stopped st ts u) = result st @ concat ts @ u"
  by (simp add: stopped_def)

lemma printed_stopped: "printed (stopped st ts u) = printed st @ filter (\<lambda>s. s \<noteq> []) ts"
  by (simp add: stopped_def emit_def)

lemma raised_at_Nil: "e \<noteq> JSONDecodeError \<Longrightarrow> raised_at w texts e [] []"
  by (simp add: raised_at_def)

lemma raised_at_later:
  "raised_at w texts e ts u \<Longrightarrow> raised_at w (first @ texts) e (first @ ts) u"
  by (auto simp: raised_at_def)

lemma raised_at_longer: "raised_at w texts e ts u \<Longrightarrow> raised_at w (texts @ rest) e ts u"
  by (auto simp: raised_at_def intro: prefix_prefix)

lemma printable_Nil: "printable w []"
  by (simp add: printable_def ascii_def)

lemma part_step_ok:
  "part_shaped p \<Longrightarrow> list_all (printable w) (part_texts p) \<Longrightarrow>
     part_step w st p = (None, emit st (part_texts p))"
  by (cases p)
    (auto simp: part_shaped_def part_step_def part_texts_def bind_def emit_def print_flush_def
          split: pyval.splits option.splits if_splits)

lemma part_step_unshaped:
  "\<not> part_shaped p \<Longrightarrow> \<exists>e. part_step w st p = (Some e, st) \<and> e \<noteq> JSONDecodeError"
  by (cases p)
    (auto simp: part_shaped_def part_step_def bind_def
          split: pyval.splits option.splits if_splits)

lemma part_step_unprintable:
  assumes "part_shaped p" and "\<not> list_all (printable w) (part_texts p)"
  shows "\<exists>u. part_texts p = [u] \<and> u \<noteq> [] \<and> \<not> printable w u
           \<and> part_step w st p = (Some UnicodeEncodeError, stopped st [] u)"
proof -
  from assms(2) obtain kvs u where p: "p = PyDict kvs" "map_of kvs ''text'' = Some (PyStr u)"
    by (auto simp: part_texts_def split: pyval.splits option.splits)
  with assms(2) have u: "\<not> printable w u" by (simp add: part_texts_def)
  then have ne: "u \<noteq> []" using printable_Nil [of w] by auto
  have "part_step w st p = (Some UnicodeEncodeError, stopped st [] u)"
    using p u ne by (simp add: part_step_def bind_def print_flush_def stopped_def emit_def)
  moreover have "part_texts p = [u]" using p by (simp add: part_texts_def)
  ultimately show ?thesis using u ne by blast
qed

lemma part_step_not_ok:
  assumes "\<not> (part_shaped p \<and> list_all (printable w) (part_texts p))"
  shows "\<exists>e u. part_step w st p = (Some e, stopped st [] u) \<and> raised_at w (part_texts p) e [] u"
proof (cases "part_shaped p")
  case False
  from part_step_unshaped [OF this, of w st] obtain e where
    "part_step w st p = (Some e, st)" "e \<noteq> JSONDecodeError" by blast
  then have "part_step w st p = (Some e, stopped st [] []) \<and> raised_at w (part_texts p) e [] []"
    by (simp add: stopped_Nil emit_Nil raised_at_Nil)
  then show ?thesis by blast
next
  case True
  with assms have "\<not> list_all (printable w) (part_texts p)" by simp
  from part_step_unprintable [OF True this, of st] obtain u where
    u: "part_texts p = [u]" "\<not> printable w u"
       "part_step w st p = (Some UnicodeEncodeError, stopped st [] u)"
    by blast
  then have "raised_at w (part_texts p) UnicodeEncodeError [] u" by (simp add: raised_at_def)
  with u(3) show ?thesis by blast
qed

lemma for_parts_ok:
  "list_all part_shaped ps \<Longrightarrow> list_all (printable w) (concat (map part_texts ps)) \<Longrightarrow>
     for_parts w st ps = (None, emit st (concat (map part_texts ps)))"
  by (induction ps arbitrary: st) (simp_all add: part_step_ok emit_Nil emit_emit)

lemma for_parts_not_ok:
  "\<not> (list_all part_shaped ps \<and> list_all (printable w) (concat (map part_texts ps))) \<Longrightarrow>
     \<exists>e ts u. for_parts w st ps = (Some e, stopped st ts u)
              \<and> raised_at w (concat (map part_texts ps)) e ts u"
proof (induction ps arbitrary: st)
  case Nil
  then show ?case by simp
next
  case (Cons p ps)
  show ?case
  proof (cases "part_shaped p \<and> list_all (printable w) (part_texts p)")
    case True
    with Cons.prems have
      "\<not> (list_all part_shaped ps \<and> list_all (printable w) (concat (map part_texts ps)))"
      by auto
    from Cons.IH [OF this, of "emit st (part_texts p)"] obtain e ts u where
      h: "for_parts w (emit st (part_texts p)) ps = (Some e, stopped (emit st (part_texts p)) ts u)"
         "raised_at w (concat (map part_texts ps)) e ts u"
      by blast
    have "for_parts w st (p # ps) = (Some e, stopped st (part_texts p @ ts) u)"
      using True h(1) by (simp add: part_step_ok stopped_emit)
    moreover have "raised_at w (concat (map part_texts (p # ps))) e (part_texts p @ ts) u"
      using raised_at_later [OF h(2)] by simp
    ultimately show ?thesis by blast
  next
    case False
    from part_step_not_ok [OF this, of st] obtain e u where
      h: "part_step w st p = (Some e, stopped st [] u)" "raised_at w (part_texts p) e [] u"
      by blast
    then have "for_parts w st (p # ps) = (Some e, stopped st [] u)" by simp
    moreover have "raised_at w (concat (map part_texts (p # ps))) e [] u"
      using raised_at_longer [OF h(2)] by simp
    ultimately show ?thesis by blast
  qed
qed

lemma characters_Nil: "characters s = [] \<longleftrightarrow> s = []"
  by (cases s) simp_all

lemma event_step_cases:
  "event_step w st ev =
     (case ev of
        PyDict kvs \<Rightarrow>
          (case map_of kvs ''content'' of
             None \<Rightarrow> (None, st)
           | Some c \<Rightarrow>
               if truthy c then
                 (case c of
                    PyDict ckvs \<Rightarrow>
                      (case map_of ckvs ''parts'' of
                         None \<Rightarrow> (None, st)
                       | Some ps \<Rightarrow>
                           if truthy ps then
                             (case py_iter ps of
                                Inl e \<Rightarrow> (Some e, st)
                              | Inr items \<Rightarrow> for_parts w st items)
                           else (None, st))
                  | _ \<Rightarrow> (Some AttributeError, st))
               else (None, st))
      | _ \<Rightarrow> (Some AttributeError, st))"
  by (cases ev)
    (auto simp: event_step_def has_parts_def bind_def split: pyval.splits option.splits)

lemma part_step_PyStr: "part_step w st (PyStr s) = (Some AttributeError, st)"
  by (simp add: part_step_def)

lemma event_step_ok:
  "event_shaped ev \<Longrightarrow> list_all (printable w) (event_texts ev) \<Longrightarrow>
     event_step w st ev = (None, emit st (event_texts ev))"
  by (cases ev)
    (auto simp: event_step_cases event_shaped_def content_shaped_def event_texts_def
                content_parts_def for_parts_ok emit_Nil
          split: pyval.splits option.splits if_splits)

lemma event_texts_parts:
  assumes "event_texts ev \<noteq> []"
  shows "\<exists>kvs ckvs ps. ev = PyDict kvs \<and> map_of kvs ''content'' = Some (PyDict ckvs)
        \<and> ckvs \<noteq> [] \<and> map_of ckvs ''parts'' = Some ps \<and> truthy ps"
proof -
  from assms have parts: "content_parts ev \<noteq> []" by (auto simp: event_texts_def)
  then obtain kvs ckvs ps where
    ev: "ev = PyDict kvs" "map_of kvs ''content'' = Some (PyDict ckvs)"
        "map_of ckvs ''parts'' = Some (PyList ps)"
    by (auto simp: content_parts_def split: pyval.splits option.splits)
  with parts have "ps \<noteq> []" by (simp add: content_parts_def)
  moreover from ev(3) have "ckvs \<noteq> []" by auto
  ultimately have "ev = PyDict kvs \<and> map_of kvs ''content'' = Some (PyDict ckvs)
        \<and> ckvs \<noteq> [] \<and> map_of ckvs ''parts'' = Some (PyList ps) \<and> truthy (PyList ps)"
    using ev by simp
  then show ?thesis by blast
qed

lemma event_step_not_ok:
  assumes not_ok: "\<not> (event_shaped ev \<and> list_all (printable w) (event_texts ev))"
  shows "\<exists>e ts u. event_step w st ev = (Some e, stopped st ts u)
            \<and> raised_at w (event_texts ev) e ts u"
proof (cases "\<exists>kvs ckvs ps. ev = PyDict kvs \<and> map_of kvs ''content'' = Some (PyDict ckvs)
                \<and> ckvs \<noteq> [] \<and> map_of ckvs ''parts'' = Some ps \<and> truthy ps")
  case True
  then obtain kvs ckvs ps where
    ev: "ev = PyDict kvs" "map_of kvs ''content'' = Some (PyDict ckvs)" "ckvs \<noteq> []"
        "map_of ckvs ''parts'' = Some ps" "truthy ps"
    by blast
  have step: "event_step w st ev =
      (case py_iter ps of Inl e \<Rightarrow> (Some e, st) | Inr items \<Rightarrow> for_parts w st items)"
    using ev by (simp add: event_step_cases)
  have raises: ?thesis if "event_step w st ev = (Some e, st)" "e \<noteq> JSONDecodeError" for e
  proof -
    from that have "event_step w st ev = (Some e, stopped st [] [])
        \<and> raised_at w (event_texts ev) e [] []"
      by (simp add: stopped_Nil emit_Nil raised_at_Nil)
    then show ?thesis by blast
  qed
  show ?thesis
  proof (cases ps)
    case (PyList parts)
    have "event_texts ev = concat (map part_texts parts)"
      using ev PyList by (simp add: event_texts_def content_parts_def)
    moreover have "event_shaped ev = list_all part_shaped parts"
      using ev PyList by (simp add: event_shaped_def content_shaped_def)
    ultimately have
      "\<not> (list_all part_shaped parts \<and> list_all (printable w) (concat (map part_texts parts)))"
      using not_ok by simp
    from for_parts_not_ok [OF this, of st] obtain e ts u where
      "for_parts w st parts = (Some e, stopped st ts u)"
      "raised_at w (concat (map part_texts parts)) e ts u"
      by blast
    with \<open>event_texts ev = concat (map part_texts parts)\<close> show ?thesis
      using step PyList by auto
  next
    case (PyDict items)
    with ev have "items \<noteq> []" by simp
    then obtain kv rest where "items = kv # rest" by (cases items) auto
    then have "event_step w st ev = (Some AttributeError, st)"
      using step PyDict by (simp add: part_step_PyStr)
    then show ?thesis by (rule raises) simp
  next
    case (PyStr s)
    with ev have "characters s \<noteq> []" by (simp add: characters_Nil)
    then obtain c rest where "characters s = c # rest" by (cases "characters s") auto
    then have "event_step w st ev = (Some AttributeError, st)"
      using step PyStr by (simp add: part_step_PyStr)
    then show ?thesis by (rule raises) simp
  next
    case PyNone
    with ev show ?thesis by simp
  next
    case (PyBool b)
    then have "event_step w st ev = (Some TypeError, st)" using step by simp
    then show ?thesis by (rule raises) simp
  next
    case (PyInt i)
    then have "event_step w st ev = (Some TypeError, st)" using step by simp
    then show ?thesis by (rule raises) simp
  next
    case (PyFloat f)
    then have "event_step w st ev = (Some TypeError, st)" using step by simp
    then show ?thesis by (rule raises) simp
  qed
next
  case False
  with event_texts_parts [of ev] have "event_texts ev = []" by blast
  with not_ok have "\<not> event_shaped ev" by simp
  with False have "event_step w st ev = (Some AttributeError, st)"
    by (cases ev)
      (auto simp: event_step_cases event_shaped_def content_shaped_def
            split: pyval.splits option.splits if_splits)
  then have "event_step w st ev = (Some AttributeError, stopped st [] [])
      \<and> raised_at w (event_texts ev) AttributeError [] []"
    by (simp add: stopped_Nil emit_Nil raised_at_Nil)
  then show ?thesis by blast
qed

lemma line_step_undecodable:
  "\<not> utf8_wellformed l \<Longrightarrow> line_step w st l = (Some UnicodeDecodeError, st)"
  by (simp add: line_step_def decode_utf8_def)

lemma line_step_no_frame:
  "utf8_wellformed l \<Longrightarrow> frame_payload l = None \<Longrightarrow> line_step w st l = (None, st)"
  by (auto simp: line_step_def frame_payload_def decode_utf8_def Let_def split: if_splits)

lemma line_step_frame:
  "frame_payload l = Some p \<Longrightarrow> line_step w st l = except_JSONDecodeError (try_event w st p)"
  by (auto simp: line_step_def frame_payload_def decode_utf8_def Let_def split: if_splits)

lemma line_step_ok:
  assumes "line_ok w l"
  shows "line_step w st l = (None, emit st (frame_texts w l))"
proof (cases "frame_payload l")
  case None
  then show ?thesis
    using assms by (simp add: line_ok_def line_step_no_frame frame_texts_def parsed_frame_def emit_Nil)
next
  case (Some p)
  show ?thesis
  proof (cases "loads w p")
    case (Inl e)
    with Some assms have "e = JSONDecodeError" by (simp add: line_ok_def)
    with Some Inl show ?thesis
      by (simp add: line_step_frame try_event_def except_JSONDecodeError_def frame_texts_def
                    parsed_frame_def emit_Nil)
  next
    case (Inr ev)
    with Some assms have "event_shaped ev" "list_all (printable w) (event_texts ev)"
      by (simp_all add: line_ok_def)
    with Some Inr show ?thesis
      by (simp add: line_step_frame try_event_def except_JSONDecodeError_def frame_texts_def
                    parsed_frame_def event_step_ok)
  qed
qed

lemma line_step_not_ok:
  assumes "\<not> line_ok w l"
  shows "\<exists>e ts u. line_step w st l = (Some e, stopped st ts u)
            \<and> raised_at w (frame_texts w l) e ts u"
proof (cases "utf8_wellformed l")
  case False
  then have "line_step w st l = (Some UnicodeDecodeError, stopped st [] [])
      \<and> raised_at w (frame_texts w l) UnicodeDecodeError [] []"
    by (simp add: line_step_undecodable stopped_Nil emit_Nil raised_at_Nil)
  then show ?thesis by blast
next
  case True
  with assms obtain p where p: "frame_payload l = Some p"
    by (cases "frame_payload l") (auto simp: line_ok_def)
  show ?thesis
  proof (cases "loads w p")
    case (Inl e)
    with p True assms have "e \<noteq> JSONDecodeError" by (simp add: line_ok_def)
    with p Inl have "line_step w st l = (Some e, stopped st [] [])
        \<and> raised_at w (frame_texts w l) e [] []"
      by (simp add: line_step_frame try_event_def except_JSONDecodeError_def stopped_Nil
                    emit_Nil raised_at_Nil)
    then show ?thesis by blast
  next
    case (Inr ev)
    with p True assms have "\<not> (event_shaped ev \<and> list_all (printable w) (event_texts ev))"
      by (simp add: line_ok_def)
    from event_step_not_ok [OF this, of st] obtain e ts u where
      h: "event_step w st ev = (Some e, stopped st ts u)" "raised_at w (event_texts ev) e ts u"
      by blast
    from h(2) have "e \<noteq> JSONDecodeError" by (simp add: raised_at_def)
    with h(1) p Inr have "line_step w st l = (Some e, stopped st ts u)"
      by (simp add: line_step_frame try_event_def except_JSONDecodeError_def)
    moreover have "frame_texts w l = event_texts ev"
      using p Inr by (simp add: frame_texts_def parsed_frame_def)
    ultimately show ?thesis using h(2) by auto
  qed
qed

lemma stream_loop_ok:
  "list_all (line_ok w) ls \<Longrightarrow> stream_loop w st ls = (None, emit st (stream_texts w ls))"
  by (induction ls arbitrary: st)
     (simp_all add: stream_texts_def line_step_ok emit_Nil emit_emit)

lemma stream_loop_not_ok:
  "\<not> list_all (line_ok w) ls \<Longrightarrow>
     \<exists>e ts u. stream_loop w st ls = (Some e, stopped st ts u)
              \<and> raised_at w (stream_texts w ls) e ts u"
proof (induction ls arbitrary: st)
  case Nil
  then show ?case by simp
next
  case (Cons l ls)
  show ?case
  proof (cases "line_ok w l")
    case True
    with Cons.prems have "\<not> list_all (line_ok w) ls" by simp
    from Cons.IH [OF this, of "emit st (frame_texts w l)"] obtain e ts u where
      h: "stream_loop w (emit st (frame_texts w l)) ls =
            (Some e, stopped (emit st (frame_texts w l)) ts u)"
         "raised_at w (stream_texts w ls) e ts u"
      by blast
    have "stream_loop w st (l # ls) = (Some e, stopped st (frame_texts w l @ ts) u)"
      using True h(1) by (simp add: line_step_ok stopped_emit)
    moreover have "raised_at w (stream_texts w (l # ls)) e (frame_texts w l @ ts) u"
      using raised_at_later [OF h(2)] by (simp add: stream_texts_def)
    ultimately show ?thesis by blast
  next
    case False
    from line_step_not_ok [OF this, of st] obtain e ts u where
      h: "line_step w st l = (Some e, stopped st ts u)" "raised_at w (frame_texts w l) e ts u"
      by blast
    then have "stream_loop w st (l # ls) = (Some e, stopped st ts u)" by simp
    moreover have "raised_at w (stream_texts w (l # ls)) e ts u"
      using raised_at_longer [OF h(2)] by (simp add: stream_texts_def)
    ultimately show ?thesis by blast
  qed
qed

lemma stream_loop_append:
  "stream_loop w st (a @ b) =
     (case stream_loop w st a of
        (None, st') \<Rightarrow> stream_loop w st' b
      | (Some e, st') \<Rightarrow> (Some e, st'))"
  by (induction a arbitrary: st) (auto split: prod.splits option.splits)

lemma stream_loop_grows: "prefix (result st) (result (snd (stream_loop w st ls)))"
proof (cases "list_all (line_ok w) ls")
  case True
  then show ?thesis by (simp add: stream_loop_ok result_emit)
next
  case False
  from stream_loop_not_ok [OF this, of st] show ?thesis by (auto simp: result_stopped)
qed

lemma decode_stream_ok:
  "stream_ok w lines \<Longrightarrow>
     decode_stream w lines =
       (None, \<lparr>result = concat (stream_texts w lines), printed = fragments w lines\<rparr>)"
  by (simp add: decode_stream_def stream_ok_def stream_loop_ok emit_def fragments_def)




subsection \<open>The accumulated output only grows\<close>

text \<open>
  C7: during one streaming call the accumulated output is monotone. Whatever the line
  and the state, the buffer before the line is a prefix of the buffer after it; and the
  buffer after the lines of a stream is a prefix of the buffer after those lines and any
  further ones. This holds for every stream, also where the decoder raises.
\<close>

theorem accumulated_output_monotone:
  "prefix (result st) (result (snd (line_step w st line)))
   \<and> prefix (result (snd (decode_stream w lines)))
            (result (snd (decode_stream w (lines @ later))))"
proof
  show "prefix (result st) (result (snd (line_step w st line)))"
  proof (cases "line_ok w line")
    case True
    then show ?thesis by (simp add: line_step_ok result_emit)
  next
    case False
    from line_step_not_ok [OF this, of st] show ?thesis by (auto simp: result_stopped)
  qed
next
  let ?init = "\<lparr>result = [], printed = []\<rparr>"
  obtain e st' where a: "stream_loop w ?init lines = (e, st')"
    by (cases "stream_loop w ?init lines")
  show "prefix (result (snd (decode_stream w lines)))
          (result (snd (decode_stream w (lines @ later))))"
  proof (cases e)
    case None
    with a stream_loop_grows [of st' w later] show ?thesis
      by (simp add: decode_stream_def stream_loop_append)
  next
    case (Some err)
    with a show ?thesis by (simp add: decode_stream_def stream_loop_append)
  qed
qed

subsection \<open>Writes and fragments\<close>




subsection \<open>The value returned\<close>




subsection \<open>Lines that are skipped\<close>

lemma lacks_parts_shaped: "lacks_parts ev \<Longrightarrow> event_shaped ev \<and> event_texts ev = []"
  by (cases ev)
    (auto simp: lacks_parts_def event_shaped_def content_shaped_def event_texts_def
                content_parts_def
          split: pyval.splits option.splits if_splits)

lemma ignorable_ok: "ignorable w line \<Longrightarrow> line_ok w line \<and> frame_texts w line = []"
  by (auto simp: ignorable_def line_ok_def frame_texts_def parsed_frame_def frame_payload_def
                 decode_utf8_def lacks_parts_shaped
           split: if_splits sum.splits option.splits)

text \<open>
  C2, as amended: a line that is UTF-8 and, once trimmed, is blank or lacks the
  \<^verbatim>\<open>data: \<close> prefix, or has an empty payload, or has a payload that fails to parse
  with \<^verbatim>\<open>JSONDecodeError\<close>, or parses to an object whose \<^verbatim>\<open>content\<close> is absent or
  false or is an object whose \<^verbatim>\<open>parts\<close> are absent or false, leaves the state as it
  was and raises nothing, and the stream goes on as if the line were not there.
\<close>

theorem ignorable_line_is_skipped:
  assumes "ignorable w line"
  shows "line_step w st line = (None, st)
     \<and> stream_loop w st (before @ line # after) = stream_loop w st (before @ after)
     \<and> decode_stream w (before @ line # after) = decode_stream w (before @ after)"
proof -
  have step: "\<And>st. line_step w st line = (None, st)"
    using ignorable_ok [OF assms] by (simp add: line_step_ok emit_Nil)
  have "\<And>st. stream_loop w st (before @ line # after) = stream_loop w st (before @ after)"
    by (simp add: stream_loop_append step split: prod.splits option.splits)
  with step show ?thesis by (simp add: decode_stream_def)
qed

theorem ignorable_line_is_skipped_witness:
  "ignorable (event_stream []) ''data: {not json''
   \<and> decode_stream (event_stream [])
        [''data: {not json'', ''data: {\"content\":{\"parts\":[{\"text\":\"ok\"}]}}''] =
       (None, \<lparr>result = ''ok'', printed = [''ok'']\<rparr>)"
proof -
  have ign: "ignorable (event_stream []) ''data: {not json''" by code_simp
  have rest: "decode_stream (event_stream [])
      [''data: {\"content\":{\"parts\":[{\"text\":\"ok\"}]}}''] =
      (None, \<lparr>result = ''ok'', printed = [''ok'']\<rparr>)"
    by code_simp
  from ignorable_line_is_skipped [OF ign, of "\<lparr>result = [], printed = []\<rparr>" "[]"
      "[''data: {\"content\":{\"parts\":[{\"text\":\"ok\"}]}}'']"] ign rest
  show ?thesis by simp
qed

text \<open>
  C2 as it was stated fails for a parsed value without the \<^verbatim>\<open>content.parts\<close>
  structure that is not of the shapes above: in \<^verbatim>\<open>data: {"content":"x"}\<close> the content
  is a string, \<^verbatim>\<open>event['content'].get\<close> raises \<^verbatim>\<open>AttributeError\<close>, the call raises it
  to its caller, and the frame that follows is never read. Without that line the call
  returns \<^verbatim>\<open>ok\<close>.
\<close>

theorem frame_without_parts_structure_raises:
  "outcome (run_agent_streaming
      (event_stream (''data: {\"content\":\"x\"}'' @ newline @ newline
                     @ ''data: {\"content\":{\"parts\":[{\"text\":\"ok\"}]}}'' @ newline @ newline))
      local_client ''app'' ''user'' ''s1'' ''hi'') = Inl AttributeError
   \<and> terminal (run_agent_streaming
      (event_stream (''data: {\"content\":\"x\"}'' @ newline @ newline
                     @ ''data: {\"content\":{\"parts\":[{\"text\":\"ok\"}]}}'' @ newline @ newline))
      local_client ''app'' ''user'' ''s1'' ''hi'') = []
   \<and> outcome (run_agent_streaming
      (event_stream (''data: {\"content\":{\"parts\":[{\"text\":\"ok\"}]}}'' @ newline @ newline))
      local_client ''app'' ''user'' ''s1'' ''hi'') = Inr ''ok''"
  by code_simp

subsection \<open>The two-frame stream\<close>

text \<open>
  C4: on the stream of the two frames with the texts \<^verbatim>\<open>Hel\<close> and \<^verbatim>\<open>lo\<close>, given as
  two lines or as the body in which a blank line follows each frame, and with
  \<^verbatim>\<open>json.loads\<close> reading the two payloads as the objects they denote, the call writes
  \<^verbatim>\<open>Hel\<close>, then \<^verbatim>\<open>lo\<close>, and returns \<^verbatim>\<open>Hello\<close>.
\<close>

theorem two_frames_give_hello:
  assumes "session self = Some s"
    and "status (server w (run_sse_request w self app_name user_id session_id message)) < 400"
    and "content (server w (run_sse_request w self app_name user_id session_id message)) =
           [''data: {\"author\":\"agent\",\"content\":{\"parts\":[{\"text\":\"Hel\"}]}}'',
            ''data: {\"author\":\"agent\",\"content\":{\"parts\":[{\"text\":\"lo\"}]}}'']
         \<or> content (server w (run_sse_request w self app_name user_id session_id message)) =
           readlines []
             (''data: {\"author\":\"agent\",\"content\":{\"parts\":[{\"text\":\"Hel\"}]}}''
                @ newline @ newline
              @ ''data: {\"author\":\"agent\",\"content\":{\"parts\":[{\"text\":\"lo\"}]}}''
                @ newline @ newline)"
    and "loads w ''{\"author\":\"agent\",\"content\":{\"parts\":[{\"text\":\"Hel\"}]}}'' =
           Inr (PyDict [(''author'', PyStr ''agent''),
                  (''content'', PyDict [(''parts'', PyList [PyDict [(''text'', PyStr ''Hel'')]])])])"
    and "loads w ''{\"author\":\"agent\",\"content\":{\"parts\":[{\"text\":\"lo\"}]}}'' =
           Inr (PyDict [(''author'', PyStr ''agent''),
                  (''content'', PyDict [(''parts'', PyList [PyDict [(''text'', PyStr ''lo'')]])])])"
  shows "run_agent_streaming w self app_name user_id session_id message =
     \<lparr>outcome = Inr ''Hello'',
      requests = [run_sse_request w self app_name user_id session_id message],
      terminal = [''Hel'', ''lo'']\<rparr>"
proof -
  let ?l1 = "''data: {\"author\":\"agent\",\"content\":{\"parts\":[{\"text\":\"Hel\"}]}}''"
  let ?l2 = "''data: {\"author\":\"agent\",\"content\":{\"parts\":[{\"text\":\"lo\"}]}}''"
  let ?lines = "content (server w (run_sse_request w self app_name user_id session_id message))"
  have wire: "readlines [] (?l1 @ newline @ newline @ ?l2 @ newline @ newline) =
      [?l1 @ newline, newline, ?l2 @ newline, newline]"
    by code_simp
  have utf8: "utf8_wellformed ?l1" "utf8_wellformed ?l2" "utf8_wellformed (?l1 @ newline)"
      "utf8_wellformed (?l2 @ newline)" "utf8_wellformed newline"
    by code_simp+
  have payload:
    "frame_payload ?l1 = Some ''{\"author\":\"agent\",\"content\":{\"parts\":[{\"text\":\"Hel\"}]}}''"
    "frame_payload (?l1 @ newline) =
       Some ''{\"author\":\"agent\",\"content\":{\"parts\":[{\"text\":\"Hel\"}]}}''"
    "frame_payload ?l2 = Some ''{\"author\":\"agent\",\"content\":{\"parts\":[{\"text\":\"lo\"}]}}''"
    "frame_payload (?l2 @ newline) =
       Some ''{\"author\":\"agent\",\"content\":{\"parts\":[{\"text\":\"lo\"}]}}''"
    "frame_payload newline = None"
    by code_simp+
  have shaped:
    "event_shaped (PyDict [(''author'', PyStr ''agent''),
        (''content'', PyDict [(''parts'', PyList [PyDict [(''text'', PyStr ''Hel'')]])])])"
    "event_shaped (PyDict [(''author'', PyStr ''agent''),
        (''content'', PyDict [(''parts'', PyList [PyDict [(''text'', PyStr ''lo'')]])])])"
    by code_simp+
  have texts:
    "event_texts (PyDict [(''author'', PyStr ''agent''),
        (''content'', PyDict [(''parts'', PyList [PyDict [(''text'', PyStr ''Hel'')]])])]) = [''Hel'']"
    "event_texts (PyDict [(''author'', PyStr ''agent''),
        (''content'', PyDict [(''parts'', PyList [PyDict [(''text'', PyStr ''lo'')]])])]) = [''lo'']"
    by code_simp+
  have "ascii ''Hel''" "ascii ''lo''" by code_simp+
  then have encodable: "list_all (printable w) [''Hel'']" "list_all (printable w) [''lo'']"
    by (simp_all add: printable_def)
  have ok: "line_ok w ?l1" "line_ok w ?l2" "line_ok w (?l1 @ newline)" "line_ok w (?l2 @ newline)"
      "line_ok w newline"
    unfolding line_ok_def
    by (simp_all only: utf8 payload assms(4,5) shaped texts encodable option.case sum.case simp_thms)
  have ft: "frame_texts w ?l1 = [''Hel'']" "frame_texts w (?l1 @ newline) = [''Hel'']"
      "frame_texts w ?l2 = [''lo'']" "frame_texts w (?l2 @ newline) = [''lo'']"
      "frame_texts w newline = []"
    unfolding frame_texts_def parsed_frame_def
    by (simp_all only: payload assms(4,5) texts option.case sum.case)
  have two: "stream_ok w [a, b] \<and> stream_texts w [a, b] = [''Hel'', ''lo'']"
    if "line_ok w a" "line_ok w b" "frame_texts w a = [''Hel'']" "frame_texts w b = [''lo'']"
    for a b
    using that by (simp add: stream_ok_def stream_texts_def)
  have four: "stream_ok w [a, n, b, n] \<and> stream_texts w [a, n, b, n] = [''Hel'', ''lo'']"
    if "line_ok w a" "line_ok w b" "line_ok w n" "frame_texts w a = [''Hel'']"
      "frame_texts w b = [''lo'']" "frame_texts w n = []"
    for a b n
    using that by (simp add: stream_ok_def stream_texts_def)
  from assms(3) have "stream_ok w ?lines \<and> stream_texts w ?lines = [''Hel'', ''lo'']"
  proof
    assume "?lines = [?l1, ?l2]"
    with two [OF ok(1) ok(2) ft(1) ft(3)] show ?thesis by (simp only:)
  next
    assume "?lines = readlines [] (?l1 @ newline @ newline @ ?l2 @ newline @ newline)"
    then have "?lines = [?l1 @ newline, newline, ?l2 @ newline, newline]"
      by (simp only: wire)
    with four [OF ok(3) ok(4) ok(5) ft(2) ft(4) ft(5)] show ?thesis by (simp only:)
  qed
  then have "decode_stream w ?lines = (None, \<lparr>result = ''Hello'', printed = [''Hel'', ''lo'']\<rparr>)"
    by (simp add: decode_stream_ok fragments_def)
  with assms(1,2) show ?thesis by (simp add: run_agent_streaming_def Let_def)
qed

theorem two_frames_give_hello_witness:
  "run_agent_streaming
     (event_stream (''data: {\"author\":\"agent\",\"content\":{\"parts\":[{\"text\":\"Hel\"}]}}''
                      @ newline @ newline
                    @ ''data: {\"author\":\"agent\",\"content\":{\"parts\":[{\"text\":\"lo\"}]}}''
                      @ newline @ newline))
     local_client ''app'' ''user'' ''s1'' ''hi'' =
     \<lparr>outcome = Inr ''Hello'',
      requests = [\<lparr>verb = ''POST'', url = ''http://localhost:8000/run_sse'',
                   kwargs = JsonPayload (PyDict
                     [(''app_name'', PyStr ''app''), (''user_id'', PyStr ''user''),
                      (''session_id'', PyStr ''s1''), (''new_message'', user_content ''hi''),
                      (''streaming'', PyBool True)])\<rparr>],
      terminal = [''Hel'', ''lo'']\<rparr>"
proof -
  let ?w = "event_stream (''data: {\"author\":\"agent\",\"content\":{\"parts\":[{\"text\":\"Hel\"}]}}''
                      @ newline @ newline
                    @ ''data: {\"author\":\"agent\",\"content\":{\"parts\":[{\"text\":\"lo\"}]}}''
                      @ newline @ newline)"
  let ?req = "run_sse_request ?w local_client ''app'' ''user'' ''s1'' ''hi''"
  have s: "session local_client = Some ClientSession" by code_simp
  have st: "status (server ?w ?req) < 400" by code_simp
  have c: "content (server ?w ?req) =
           readlines []
             (''data: {\"author\":\"agent\",\"content\":{\"parts\":[{\"text\":\"Hel\"}]}}''
                @ newline @ newline
              @ ''data: {\"author\":\"agent\",\"content\":{\"parts\":[{\"text\":\"lo\"}]}}''
                @ newline @ newline)"
    by (simp add: event_stream_def serving_def http_reply_def)
  have p1: "loads ?w ''{\"author\":\"agent\",\"content\":{\"parts\":[{\"text\":\"Hel\"}]}}'' =
           Inr (PyDict [(''author'', PyStr ''agent''),
                  (''content'', PyDict [(''parts'', PyList [PyDict [(''text'', PyStr ''Hel'')]])])])"
    by code_simp
  have p2: "loads ?w ''{\"author\":\"agent\",\"content\":{\"parts\":[{\"text\":\"lo\"}]}}'' =
           Inr (PyDict [(''author'', PyStr ''agent''),
                  (''content'', PyDict [(''parts'', PyList [PyDict [(''text'', PyStr ''lo'')]])])])"
    by code_simp
  have r: "?req = \<lparr>verb = ''POST'', url = ''http://localhost:8000/run_sse'',
                   kwargs = JsonPayload (PyDict
                     [(''app_name'', PyStr ''app''), (''user_id'', PyStr ''user''),
                      (''session_id'', PyStr ''s1''), (''new_message'', user_content ''hi''),
                      (''streaming'', PyBool True)])\<rparr>"
    by code_simp
  from two_frames_give_hello [OF s st disjI2 [OF c] p1 p2] r show ?thesis by simp
qed

section \<open>HTTP errors\<close>

text \<open>
  The message of the error names the status in decimal and then the body as it is. The
  two can be read back from it: the status ends at the first colon, and the body is
  what follows the colon and the space.
\<close>

lemma digit_value_digit: "d < 10 \<Longrightarrow> digit_value (digit d) = d"
  by (simp add: digit_value_def digit_def)

lemma is_digit_digit: "d < 10 \<Longrightarrow> is_digit (digit d)"
  by (simp add: is_digit_def between_def digit_def)

lemma decimal_snoc: "decimal (ds @ [c]) = 10 * decimal ds + digit_value c"
  by (simp add: decimal_def)


lemma decimal_str_nat: "decimal (str_nat n) = n"
proof (induction n rule: str_nat.induct)
  case (1 n)
  show ?case
  proof (cases "n < 10")
    case True
    then show ?thesis
      by (subst str_nat.simps) (simp add: decimal_def digit_value_digit)
  next
    case False
    with 1 have "decimal (str_nat (n div 10)) = n div 10" by simp
    with False show ?thesis
      by (subst str_nat.simps) (simp add: decimal_snoc digit_value_digit)
  qed
qed

lemma str_nat_inj: "str_nat m = str_nat n \<Longrightarrow> m = n"
  by (metis decimal_str_nat)


lemma str_nat_digits: "list_all is_digit (str_nat n)"
proof (induction n rule: str_nat.induct)
  case (1 n)
  show ?case
  proof (cases "n < 10")
    case True
    then show ?thesis
      by (subst str_nat.simps) (simp add: is_digit_digit)
  next
    case False
    with 1 have "list_all is_digit (str_nat (n div 10))" by simp
    with False show ?thesis
      by (subst str_nat.simps) (simp add: is_digit_digit)
  qed
qed

lemma not_digits: "\<not> is_digit (CHR ''-'')" "\<not> is_digit (CHR '':'')"
  by (simp_all add: is_digit_def between_def)

lemma str_nat_no_minus: "str_nat n \<noteq> CHR ''-'' # cs"
proof
  assume "str_nat n = CHR ''-'' # cs"
  with str_nat_digits [of n] have "is_digit (CHR ''-'')" by simp
  with not_digits show False by simp
qed

lemma str_int_no_colon: "CHR '':'' \<notin> set (str_int i)"
proof
  assume "CHR '':'' \<in> set (str_int i)"
  then have "CHR '':'' \<in> set (str_nat (nat (- i))) \<or> CHR '':'' \<in> set (str_nat (nat i))"
    by (simp add: str_int_def split: if_splits)
  with str_nat_digits [of "nat (- i)"] str_nat_digits [of "nat i"]
  have "is_digit (CHR '':'')" by (auto simp: list_all_iff)
  with not_digits show False by simp
qed


lemma str_int_inj:
  assumes "str_int i = str_int j"
  shows "i = j"
proof (cases "i < 0")
  case True
  show ?thesis
  proof (cases "j < 0")
    case j: True
    with True assms have "str_nat (nat (- i)) = str_nat (nat (- j))"
      by (simp add: str_int_def)
    then have "nat (- i) = nat (- j)" by (rule str_nat_inj)
    with True j show ?thesis by simp
  next
    case j: False
    with True assms have "str_nat (nat j) = CHR ''-'' # str_nat (nat (- i))"
      by (simp add: str_int_def)
    with str_nat_no_minus show ?thesis by blast
  qed
next
  case False
  show ?thesis
  proof (cases "j < 0")
    case j: True
    with False assms have "str_nat (nat i) = CHR ''-'' # str_nat (nat (- j))"
      by (simp add: str_int_def)
    with str_nat_no_minus show ?thesis by blast
  next
    case j: False
    with False assms have "str_nat (nat i) = str_nat (nat j)"
      by (simp add: str_int_def)
    then have "nat i = nat j" by (rule str_nat_inj)
    with False j show ?thesis by simp
  qed
qed


lemma split_at_first:
  assumes "x \<notin> set xs" and "x \<notin> set xs'" and "xs @ x # ys = xs' @ x # ys'"
  shows "xs = xs' \<and> ys = ys'"
proof -
  have "takeWhile (\<lambda>c. c \<noteq> x) (xs @ x # ys) = xs"
    using assms(1) by (auto simp: takeWhile_tail)
  moreover have "takeWhile (\<lambda>c. c \<noteq> x) (xs' @ x # ys') = xs'"
    using assms(2) by (auto simp: takeWhile_tail)
  ultimately have "xs = xs'" using assms(3) by simp
  with assms(3) show ?thesis by simp
qed

lemma http_error_inj:
  assumes "http_error a b = http_error a' b'"
  shows "a = a' \<and> b = b'"
proof -
  from assms have "''HTTP '' @ (str_int a @ CHR '':'' # (CHR '' '' # b)) =
      ''HTTP '' @ (str_int a' @ CHR '':'' # (CHR '' '' # b'))"
    unfolding http_error_def by simp
  then have "str_int a @ CHR '':'' # (CHR '' '' # b) = str_int a' @ CHR '':'' # (CHR '' '' # b')"
    by (rule same_append_eq [THEN iffD1])
  from split_at_first [OF str_int_no_colon str_int_no_colon this]
  have "str_int a = str_int a'" "b = b'" by simp_all
  then show ?thesis by (auto dest: str_int_inj)
qed

text \<open>
  C5: for every one-shot operation routed through \<^verbatim>\<open>_request\<close>, in a client with a
  session: a status of 400 or more raises the one kind of error, a
  \<^verbatim>\<open>ClickException\<close>, whose message determines the status and the body text;
  otherwise a response of content type \<^verbatim>\<open>application/json\<close> returns what
  \<^verbatim>\<open>response.json()\<close> gives, and any other content type returns the wrapper
  \<^verbatim>\<open>{"text": body}\<close>. In each case exactly one request is issued.
\<close>

theorem request_maps_response:
  assumes "session self = Some s"
  shows "request w self method endpoint kw =
     \<lparr>outcome =
        (if 400 \<le> status (server w \<lparr>verb = method, url = base_url self @ endpoint, kwargs = kw\<rparr>)
         then Inl (ClickException (http_error
                (status (server w \<lparr>verb = method, url = base_url self @ endpoint, kwargs = kw\<rparr>))
                (body_text (server w \<lparr>verb = method, url = base_url self @ endpoint, kwargs = kw\<rparr>))))
         else if content_type (server w \<lparr>verb = method, url = base_url self @ endpoint, kwargs = kw\<rparr>)
                   = ''application/json''
         then body_json (server w \<lparr>verb = method, url = base_url self @ endpoint, kwargs = kw\<rparr>)
         else Inr (PyDict [(''text'', PyStr
                (body_text (server w \<lparr>verb = method, url = base_url self @ endpoint, kwargs = kw\<rparr>)))])),
      requests = [\<lparr>verb = method, url = base_url self @ endpoint, kwargs = kw\<rparr>],
      terminal = []\<rparr>
   \<and> (\<forall>st b st' b'. http_error st b = http_error st' b' \<longrightarrow> st = st' \<and> b = b')"
  using assms by (auto simp: request_def Let_def dest: http_error_inj)

theorem request_maps_response_witness:
  "outcome (request (serving (http_reply 404 ''text/plain'' ''session not found'')) local_client
      ''GET'' ''/apps/app/users/user/sessions/s1'' NoPayload) =
     Inl (ClickException ''HTTP 404: session not found'')
   \<and> outcome (request (serving (http_reply 200 ''application/json'' ''{\"id\": \"s1\", \"n\": [1, 2]}''))
      local_client ''GET'' ''/apps/app/users/user/sessions/s1'' NoPayload) =
     Inr (PyDict [(''id'', PyStr ''s1''), (''n'', PyList [PyInt 1, PyInt 2])])
   \<and> outcome (request (serving (http_reply 200 ''text/plain'' ''{\"id\": \"s1\"}''))
      local_client ''GET'' ''/apps/app/users/user/sessions/s1'' NoPayload) =
     Inr (PyDict [(''text'', PyStr ''{\"id\": \"s1\"}'')])"
proof -
  have s: "session local_client = Some ClientSession" by code_simp
  have a: "http_reply 404 ''text/plain'' ''session not found'' =
      \<lparr>status = 404, content_type = ''text/plain'', body_text = ''session not found'',
       body_json = Inl JSONDecodeError, content = [''session not found'']\<rparr>"
    by code_simp
  have b: "http_reply 200 ''application/json'' ''{\"id\": \"s1\", \"n\": [1, 2]}'' =
      \<lparr>status = 200, content_type = ''application/json'',
       body_text = ''{\"id\": \"s1\", \"n\": [1, 2]}'',
       body_json = Inr (PyDict [(''id'', PyStr ''s1''), (''n'', PyList [PyInt 1, PyInt 2])]),
       content = [''{\"id\": \"s1\", \"n\": [1, 2]}'']\<rparr>"
    by code_simp
  have c: "http_reply 200 ''text/plain'' ''{\"id\": \"s1\"}'' =
      \<lparr>status = 200, content_type = ''text/plain'', body_text = ''{\"id\": \"s1\"}'',
       body_json = Inr (PyDict [(''id'', PyStr ''s1'')]), content = [''{\"id\": \"s1\"}'']\<rparr>"
    by code_simp
  have e: "http_error 404 ''session not found'' = ''HTTP 404: session not found''" by code_simp
  show ?thesis
    using request_maps_response [OF s, of "serving (http_reply 404 ''text/plain'' ''session not found'')"]
      request_maps_response [OF s, of "serving (http_reply 200 ''application/json'' ''{\"id\": \"s1\", \"n\": [1, 2]}'')"]
      request_maps_response [OF s, of "serving (http_reply 200 ''text/plain'' ''{\"id\": \"s1\"}'')"]
    by (simp add: serving_def a b c e)
qed

text \<open>
  C3: if the request that starts the stream returns a status of 400 or more,
  \<^verbatim>\<open>run_agent_streaming\<close> raises the \<^verbatim>\<open>ClickException\<close> whose message carries the
  status and the body text, and writes nothing; no line is read, since the call is the
  same whatever lines the response would stream and whatever \<^verbatim>\<open>json.loads\<close> would
  do with them.
\<close>

theorem streaming_status_error:
  assumes "session self = Some s"
    and "400 \<le> status (server w (run_sse_request w self app_name user_id session_id message))"
  shows "run_agent_streaming w self app_name user_id session_id message =
     \<lparr>outcome = Inl (ClickException (http_error
          (status (server w (run_sse_request w self app_name user_id session_id message)))
          (body_text (server w (run_sse_request w self app_name user_id session_id message))))),
      requests = [run_sse_request w self app_name user_id session_id message],
      terminal = []\<rparr>
   \<and> (\<forall>lines decoder.
        run_agent_streaming
          (w\<lparr>server := \<lambda>req. (server w req)\<lparr>content := lines\<rparr>, loads := decoder\<rparr>)
          self app_name user_id session_id message =
        run_agent_streaming w self app_name user_id session_id message)
   \<and> (\<forall>st b st' b'. http_error st b = http_error st' b' \<longrightarrow> st = st' \<and> b = b')"
  using assms
  by (auto simp: run_agent_streaming_def run_sse_request_def request_data_def Let_def
           dest: http_error_inj)

theorem streaming_status_error_witness:
  "run_agent_streaming (serving (http_reply 404 ''text/plain'' ''session not found''))
     local_client ''app'' ''user'' ''s1'' ''hi'' =
     \<lparr>outcome = Inl (ClickException ''HTTP 404: session not found''),
      requests = [\<lparr>verb = ''POST'', url = ''http://localhost:8000/run_sse'',
                   kwargs = JsonPayload (PyDict
                     [(''app_name'', PyStr ''app''), (''user_id'', PyStr ''user''),
                      (''session_id'', PyStr ''s1''), (''new_message'', user_content ''hi''),
                      (''streaming'', PyBool True)])\<rparr>],
      terminal = []\<rparr>"
proof -
  let ?w = "serving (http_reply 404 ''text/plain'' ''session not found'')"
  let ?req = "run_sse_request ?w local_client ''app'' ''user'' ''s1'' ''hi''"
  have s: "session local_client = Some ClientSession" by code_simp
  have st: "400 \<le> status (server ?w ?req)" by code_simp
  have e: "http_error (status (server ?w ?req)) (body_text (server ?w ?req)) =
      ''HTTP 404: session not found''"
    by code_simp
  have r: "?req = \<lparr>verb = ''POST'', url = ''http://localhost:8000/run_sse'',
                   kwargs = JsonPayload (PyDict
                     [(''app_name'', PyStr ''app''), (''user_id'', PyStr ''user''),
                      (''session_id'', PyStr ''s1''), (''new_message'', user_content ''hi''),
                      (''streaming'', PyBool True)])\<rparr>"
    by code_simp
  from streaming_status_error [OF s st] e r show ?thesis by simp
qed

section \<open>The non-streaming command\<close>

lemma render_agent_hi:
  "render_event w (PyDict [(''author'', PyStr ''agent''),
        (''content'', PyDict [(''parts'', PyList [PyDict [(''text'', PyStr ''hi'')]])])]) =
     Inr [echo ''[agent]: hi'']"
  by (simp add: render_event_def has_parts_def bind_def)

text \<open>
  C8: when the non-streaming run returns the JSON array
  \<^verbatim>\<open>[{"author":"agent","content":{"parts":[{"text":"hi"}]}}]\<close>, the command echoes the
  user's line and then exactly one agent-output line, \<^verbatim>\<open>[agent]: hi\<close>, and ends
  normally.
\<close>

theorem cli_renders_one_agent_line:
  assumes "status (server w (run_request w (aenter (ApiClient url0)) app_name user_id session_id
             message False)) < 400"
    and "content_type (server w (run_request w (aenter (ApiClient url0)) app_name user_id
             session_id message False)) = ''application/json''"
    and "body_json (server w (run_request w (aenter (ApiClient url0)) app_name user_id
             session_id message False)) =
           Inr (PyList [PyDict [(''author'', PyStr ''agent''),
                  (''content'', PyDict [(''parts'', PyList [PyDict [(''text'', PyStr ''hi'')]])])]])"
  shows "cli_run_agent w url0 app_name user_id session_id message False =
     \<lparr>outcome = Inr (),
      requests = [run_request w (aenter (ApiClient url0)) app_name user_id session_id message False],
      terminal = [echo (''['' @ user_id @ '']: '' @ message), echo ''[agent]: hi'']\<rparr>"
proof -
  let ?client = "aenter (ApiClient url0)"
  let ?req = "run_request w ?client app_name user_id session_id message False"
  have "run_agent w ?client app_name user_id session_id message False =
      \<lparr>outcome = Inr (PyList [PyDict [(''author'', PyStr ''agent''),
          (''content'', PyDict [(''parts'', PyList [PyDict [(''text'', PyStr ''hi'')]])])]]),
       requests = [?req], terminal = []\<rparr>"
    using assms
    by (simp add: run_agent_def request_def run_request_def aenter_def Let_def)
  then show ?thesis
    by (simp add: cli_run_agent_def Let_def render_agent_hi)
qed

theorem cli_renders_one_agent_line_witness:
  "cli_run_agent
     (serving (http_reply 200 ''application/json''
        ''[{\"author\":\"agent\",\"content\":{\"parts\":[{\"text\":\"hi\"}]}}]''))
     ''http://localhost:8000'' ''app'' ''user'' ''s1'' ''hello'' False =
     \<lparr>outcome = Inr (),
      requests = [\<lparr>verb = ''POST'', url = ''http://localhost:8000/run'',
                   kwargs = JsonPayload (PyDict
                     [(''app_name'', PyStr ''app''), (''user_id'', PyStr ''user''),
                      (''session_id'', PyStr ''s1''), (''new_message'', user_content ''hello''),
                      (''streaming'', PyBool False)])\<rparr>],
      terminal = [''[user]: hello'' @ newline, ''[agent]: hi'' @ newline]\<rparr>"
proof -
  let ?w = "serving (http_reply 200 ''application/json''
        ''[{\"author\":\"agent\",\"content\":{\"parts\":[{\"text\":\"hi\"}]}}]'')"
  let ?req = "run_request ?w (aenter (ApiClient ''http://localhost:8000'')) ''app'' ''user'' ''s1''
        ''hello'' False"
  have a: "status (server ?w ?req) < 400" by code_simp
  have b: "content_type (server ?w ?req) = ''application/json''" by code_simp
  have c: "body_json (server ?w ?req) =
      Inr (PyList [PyDict [(''author'', PyStr ''agent''),
             (''content'', PyDict [(''parts'', PyList [PyDict [(''text'', PyStr ''hi'')]])])]])"
    by code_simp
  have r: "?req = \<lparr>verb = ''POST'', url = ''http://localhost:8000/run'',
                   kwargs = JsonPayload (PyDict
                     [(''app_name'', PyStr ''app''), (''user_id'', PyStr ''user''),
                      (''session_id'', PyStr ''s1''), (''new_message'', user_content ''hello''),
                      (''streaming'', PyBool False)])\<rparr>"
    by code_simp
  have e: "echo (''['' @ ''user'' @ '']: '' @ ''hello'') = ''[user]: hello'' @ newline"
      "echo ''[agent]: hi'' = ''[agent]: hi'' @ newline"
    by code_simp+
  from cli_renders_one_agent_line [OF a b c] r e show ?thesis by simp
qed

section \<open>Calls outside the connection scope\<close>

text \<open>
  C9, as amended: for every method and endpoint, \<^verbatim>\<open>_request\<close> in a client without a
  session raises the \<^verbatim>\<open>RuntimeError\<close>, issues no request and writes nothing, and so
  does every resource operation that goes through it. \<^verbatim>\<open>upload_artifact\<close> opens
  its file first: where the file cannot be opened it raises that error instead, again
  without a request; where it can, it raises the \<^verbatim>\<open>RuntimeError\<close>.
\<close>

theorem no_session_no_request:
  assumes "session self = None"
  shows "request w self method endpoint kw = not_initialized
   \<and> list_apps w self = not_initialized
   \<and> create_session w self app_name user_id optional_id state = not_initialized
   \<and> get_session w self app_name user_id session_id = not_initialized
   \<and> list_sessions w self app_name user_id = not_initialized
   \<and> delete_session w self app_name user_id session_id = not_initialized
   \<and> run_agent w self app_name user_id session_id message streaming = not_initialized
   \<and> list_artifacts w self app_name user_id session_id = not_initialized
   \<and> get_artifact w self app_name user_id session_id artifact_name version = not_initialized
   \<and> upload_artifact w self app_name user_id session_id file_path optional_name =
        (if open_rb w file_path = None
         then \<lparr>outcome = Inl OSError, requests = [], terminal = []\<rparr>
         else not_initialized)
   \<and> delete_artifact w self app_name user_id session_id artifact_name = not_initialized
   \<and> list_eval_sets w self app_name = not_initialized
   \<and> create_eval_set w self app_name eval_set_id = not_initialized
   \<and> list_evals_in_set w self app_name eval_set_id = not_initialized"
proof -
  have r: "\<And>method endpoint kw. request w self method endpoint kw = not_initialized"
    using assms by (simp add: request_def not_initialized_def)
  have n: "returning_None not_initialized = not_initialized"
    by (simp add: returning_None_def not_initialized_def)
  show ?thesis
    by (simp add: r n list_apps_def create_session_def get_session_def list_sessions_def
          delete_session_def run_agent_def list_artifacts_def get_artifact_def
          upload_artifact_def delete_artifact_def list_eval_sets_def create_eval_set_def
          list_evals_in_set_def Let_def split: option.splits)
qed

theorem no_session_no_request_witness:
  "session (ApiClient ''http://localhost:8000'') = None
   \<and> list_apps (serving (http_reply 200 ''application/json'' ''[]''))
        (ApiClient ''http://localhost:8000'') =
      \<lparr>outcome = Inl (RuntimeError ''Client not initialized. Use async context manager.''),
       requests = [], terminal = []\<rparr>
   \<and> get_session (serving (http_reply 200 ''application/json'' ''[]''))
        (ApiClient ''http://localhost:8000'') ''app'' ''user'' ''s1'' =
      \<lparr>outcome = Inl (RuntimeError ''Client not initialized. Use async context manager.''),
       requests = [], terminal = []\<rparr>"
proof -
  have s: "session (ApiClient ''http://localhost:8000'') = None"
    by (simp add: ApiClient_def)
  from no_session_no_request [OF s] s show ?thesis
    by (simp add: not_initialized_def)
qed

text \<open>
  C9 as it was stated, for any resource operation, fails for \<^verbatim>\<open>upload_artifact\<close>:
  with no session and a path that cannot be opened, \<^verbatim>\<open>open(file_path, 'rb')\<close> raises
  before \<^verbatim>\<open>_request\<close> is reached, and the error is not a \<^verbatim>\<open>RuntimeError\<close>.
\<close>

theorem upload_without_file_raises_OSError:
  "upload_artifact (serving (http_reply 200 ''application/json'' ''{}''))
     (ApiClient ''http://localhost:8000'') ''app'' ''user'' ''s1'' ''/no/such/file'' None =
     \<lparr>outcome = Inl OSError, requests = [], terminal = []\<rparr>"
  by (simp add: upload_artifact_def serving_def Let_def)

section \<open>Creating a session\<close>

text \<open>
  C10: \<^verbatim>\<open>create_session\<close> collapses false optional arguments. A state of
  \<^verbatim>\<open>None\<close> and an empty dict make the same call, and so do a session id of
  \<^verbatim>\<open>None\<close> and the empty string. In a client with a session, the one request sent
  has the body \<^verbatim>\<open>{"state": state}\<close> if the state is true and \<^verbatim>\<open>{}\<close> otherwise,
  and its URL ends with \<^verbatim>\<open>/sessions/{session_id}\<close> if the session id is a string
  that is not empty and with \<^verbatim>\<open>/sessions\<close> otherwise.
\<close>

theorem create_session_collapses_falsy:
  "create_session w self app_name user_id optional_id PyNone =
     create_session w self app_name user_id optional_id (PyDict [])
   \<and> create_session w self app_name user_id (Some []) state =
     create_session w self app_name user_id None state
   \<and> (session self = Some s \<longrightarrow>
        requests (create_session w self app_name user_id optional_id state) =
          [\<lparr>verb = ''POST'',
            url = base_url self @ ''/apps/'' @ app_name @ ''/users/'' @ user_id @ ''/sessions''
                    @ (case optional_id of
                         None \<Rightarrow> []
                       | Some session_id \<Rightarrow> if session_id = [] then [] else ''/'' @ session_id),
            kwargs = JsonPayload (if truthy state then PyDict [(''state'', state)] else PyDict [])\<rparr>])"
  by (cases optional_id) (simp_all add: create_session_def request_def Let_def)

theorem create_session_collapses_falsy_witness:
  "requests (create_session (serving (http_reply 200 ''application/json'' ''{\"id\": \"s1\"}''))
      local_client ''app'' ''user'' (Some []) (PyDict [])) =
     [\<lparr>verb = ''POST'', url = ''http://localhost:8000/apps/app/users/user/sessions'',
       kwargs = JsonPayload (PyDict [])\<rparr>]
   \<and> requests (create_session (serving (http_reply 200 ''application/json'' ''{\"id\": \"s1\"}''))
      local_client ''app'' ''user'' (Some ''s1'') (PyDict [(''k'', PyInt 1)])) =
     [\<lparr>verb = ''POST'', url = ''http://localhost:8000/apps/app/users/user/sessions/s1'',
       kwargs = JsonPayload (PyDict [(''state'', PyDict [(''k'', PyInt 1)])])\<rparr>]"
proof -
  have s: "session local_client = Some ClientSession" by code_simp
  have b: "base_url local_client = ''http://localhost:8000''" by code_simp
  let ?w = "serving (http_reply 200 ''application/json'' ''{\"id\": \"s1\"}'')"
  note sent = create_session_collapses_falsy [THEN conjunct2, THEN conjunct2, rule_format, OF s]
  from sent [of ?w "''app''" "''user''" "Some []" "PyDict []"]
       sent [of ?w "''app''" "''user''" "Some ''s1''" "PyDict [(''k'', PyInt 1)]"] b
  show ?thesis by simp
qed

section \<open>The scanner has calls enough\<close>

text \<open>
  Every call of the scanner that returns has read at least one character, so a text of
  length \<open>n\<close> needs no more than \<open>2 * n + 1\<close> nested calls: \<open>json_loads\<close> never
  raises the \<^verbatim>\<open>RecursionError\<close> that stands for running out of them.
\<close>

lemma skip_ws_length: "length (skip_ws s) \<le> length s"
  by (simp add: skip_ws_def length_dropWhile_le)

lemma scanstring_shorter: "scanstring acc s = Inr (v, r) \<Longrightarrow> length r < length s"
proof (induction acc s rule: scanstring.induct)
  case (1 acc)
  then show ?case by simp
next
  case (2 acc c s)
  show ?case
  proof (cases "c = CHR 0x22")
    case True
    with 2(4) show ?thesis by simp
  next
    case quote: False
    show ?thesis
    proof (cases "c = CHR 0x5C")
      case False
      with quote 2(3) 2(4) show ?thesis by (auto split: if_splits)
    next
      case True
      with quote 2(4) obtain e s' where s: "s = e # s'"
        by (cases s) auto
      show ?thesis
      proof (cases "e = CHR ''u''")
        case u: True
        with quote True s 2(4) obtain cp n where
          esc: "unicode_escape s' = Some (cp, n)"
          and rest: "scanstring (acc @ utf8_encode cp) (drop n s') = Inr (v, r)"
          by (auto split: option.splits)
        from 2(1) [OF quote True s u esc refl rest]
        have "length r < length (drop n s')" .
        with s show ?thesis by simp
      next
        case False
        with quote True s 2(4) obtain x where
          esc: "escape e = Some x" and rest: "scanstring (acc @ [x]) s' = Inr (v, r)"
          by (auto split: option.splits)
        from 2(2) [OF quote True s False esc rest] s show ?thesis by simp
      qed
    qed
  qed
qed

lemma scanstring_no_RecursionError: "scanstring acc s \<noteq> Inl RecursionError"
  by (induction acc s rule: scanstring.induct) (auto split: list.splits option.splits)

lemma match_number_shorter: "match_number s = Inr (v, r) \<Longrightarrow> length r < length s"
proof -
  assume a: "match_number s = Inr (v, r)"
  define s1 where "s1 = (if (case s of [] \<Rightarrow> False | c # r \<Rightarrow> c = CHR ''-'') then drop 1 s else s)"
  define ip where "ip = int_part s1"
  from a have ip: "ip \<noteq> []"
    by (auto simp: match_number_def Let_def s1_def ip_def split: if_splits)
  then have "s1 \<noteq> []" by (auto simp: ip_def int_part_def)
  then have l2: "length (drop (length ip) s1) < length s1" using ip by (cases ip) auto
  have l1: "length s1 \<le> length s" by (simp add: s1_def)
  from a ip have "length r \<le> length (drop (length ip) s1)"
    unfolding match_number_def Let_def s1_def [symmetric] ip_def [symmetric]
    by (auto split: if_splits)
  with l1 l2 show ?thesis by simp
qed

lemma match_number_no_RecursionError: "match_number s \<noteq> Inl RecursionError"
  by (simp add: match_number_def Let_def)


lemma drop1_shorter: "take 1 s = [c] \<Longrightarrow> length (drop 1 s) < length s"
  by (cases s) auto

lemma after_separator:
  "take 1 (skip_ws r) = [c] \<Longrightarrow> length (skip_ws (drop 1 (skip_ws r))) < length r"
  using drop1_shorter [of "skip_ws r" c] skip_ws_length [of r]
    skip_ws_length [of "drop 1 (skip_ws r)"]
  by simp

lemma after_bracket:
  "take 1 (skip_ws r) = [c] \<Longrightarrow> length (drop 1 (skip_ws r)) < length r"
  using drop1_shorter [of "skip_ws r" c] skip_ws_length [of r] by simp

lemma scanner_shorter:
  "(\<forall>s v r. scan_once n s = Inr (v, r) \<longrightarrow> length r < length s)
   \<and> (\<forall>acc s v r. parse_array n acc s = Inr (v, r) \<longrightarrow> length r < length s)
   \<and> (\<forall>acc s v r. parse_object n acc s = Inr (v, r) \<longrightarrow> length r < length s)"
proof (induction n)
  case 0
  show ?case by simp
next
  case (Suc n)
  then have ih_scan: "\<And>s v r. scan_once n s = Inr (v, r) \<Longrightarrow> length r < length s"
    and ih_array: "\<And>acc s v r. parse_array n acc s = Inr (v, r) \<Longrightarrow> length r < length s"
    and ih_object: "\<And>acc s v r. parse_object n acc s = Inr (v, r) \<Longrightarrow> length r < length s"
    by blast+
  have "length r < length s" if a: "scan_once (Suc n) s = Inr (v, r)" for s v r
  proof (cases s)
    case Nil
    with a show ?thesis by simp
  next
    case (Cons c r0)
    consider (string) "c = CHR 0x22"
      | (object) "c \<noteq> CHR 0x22" "c = CHR ''{''"
      | (array) "c \<noteq> CHR 0x22" "c \<noteq> CHR ''{''" "c = CHR ''[''"
      | (other) "c \<noteq> CHR 0x22" "c \<noteq> CHR ''{''" "c \<noteq> CHR ''[''"
      by blast
    then show ?thesis
    proof cases
      case string
      with a Cons obtain x where "scanstring [] r0 = Inr (x, r)"
        by (auto split: sum.splits)
      from scanstring_shorter [OF this] Cons show ?thesis by simp
    next
      case object
      show ?thesis
      proof (cases "take 1 (skip_ws r0) = ''}''")
        case True
        with a Cons object have "r = drop 1 (skip_ws r0)" by simp
        with after_bracket [OF True] Cons show ?thesis by simp
      next
        case False
        with a Cons object have "parse_object n [] (skip_ws r0) = Inr (v, r)" by simp
        from ih_object [OF this] skip_ws_length [of r0] Cons show ?thesis by simp
      qed
    next
      case array
      show ?thesis
      proof (cases "take 1 (skip_ws r0) = '']''")
        case True
        with a Cons array have "r = drop 1 (skip_ws r0)" by simp
        with after_bracket [OF True] Cons show ?thesis by simp
      next
        case False
        with a Cons array have "parse_array n [] (skip_ws r0) = Inr (v, r)" by simp
        from ih_array [OF this] skip_ws_length [of r0] Cons show ?thesis by simp
      qed
    next
      case other
      with a Cons have "match_number s = Inr (v, r) \<or> r = drop 4 s \<or> r = drop 5 s
          \<or> r = drop 3 s \<or> r = drop 8 s \<or> r = drop 9 s"
        by (simp split: if_splits)
      with Cons match_number_shorter [of s v r] show ?thesis by auto
    qed
  qed
  moreover have "length r < length s" if a: "parse_array (Suc n) acc s = Inr (v, r)"
    for acc s v r
  proof -
    from a obtain x r1 where x: "scan_once n s = Inr (x, r1)"
      by (auto split: sum.splits)
    from ih_scan [OF x] have r1: "length r1 < length s" .
    show ?thesis
    proof (cases "take 1 (skip_ws r1) = '']''")
      case True
      with a x have "r = drop 1 (skip_ws r1)" by simp
      with after_bracket [OF True] r1 show ?thesis by simp
    next
      case False
      with a x have comma: "take 1 (skip_ws r1) = '',''"
        and rest: "parse_array n (acc @ [x]) (skip_ws (drop 1 (skip_ws r1))) = Inr (v, r)"
        by (auto split: if_splits)
      from ih_array [OF rest] after_separator [OF comma] r1 show ?thesis by simp
    qed
  qed
  moreover have "length r < length s" if a: "parse_object (Suc n) acc s = Inr (v, r)"
    for acc s v r
  proof -
    from a have q: "take 1 s = [CHR 0x22]" by (auto split: if_splits)
    with a obtain key r1 where k: "scanstring [] (drop 1 s) = Inr (key, r1)"
      by (auto split: sum.splits)
    from scanstring_shorter [OF k] have r1: "length r1 < length s" by simp
    from a q k have colon: "take 1 (skip_ws r1) = '':''" by (auto split: if_splits)
    with a q k obtain x r2 where
      x: "scan_once n (skip_ws (drop 1 (skip_ws r1))) = Inr (x, r2)"
      by (auto split: sum.splits)
    from ih_scan [OF x] after_separator [OF colon] r1 have r2: "length r2 < length s" by simp
    show ?thesis
    proof (cases "take 1 (skip_ws r2) = ''}''")
      case True
      with a q k colon x have "r = drop 1 (skip_ws r2)" by simp
      with after_bracket [OF True] r2 show ?thesis by simp
    next
      case False
      with a q k colon x have comma: "take 1 (skip_ws r2) = '',''"
        and rest: "parse_object n (dict_set key x acc) (skip_ws (drop 1 (skip_ws r2))) = Inr (v, r)"
        by (auto split: if_splits)
      from ih_object [OF rest] after_separator [OF comma] r2 show ?thesis by simp
    qed
  qed
  ultimately show ?case by blast
qed


lemma scanner_fuel:
  "(\<forall>s. 2 * length s < n \<longrightarrow> scan_once n s \<noteq> Inl RecursionError)
   \<and> (\<forall>acc s. 2 * length s + 1 < n \<longrightarrow> parse_array n acc s \<noteq> Inl RecursionError)
   \<and> (\<forall>acc s. 2 * length s + 1 < n \<longrightarrow> parse_object n acc s \<noteq> Inl RecursionError)"
proof (induction n)
  case 0
  show ?case by simp
next
  case (Suc n)
  then have ih_scan: "\<And>s. 2 * length s < n \<Longrightarrow> scan_once n s \<noteq> Inl RecursionError"
    and ih_array: "\<And>acc s. 2 * length s + 1 < n \<Longrightarrow> parse_array n acc s \<noteq> Inl RecursionError"
    and ih_object: "\<And>acc s. 2 * length s + 1 < n \<Longrightarrow> parse_object n acc s \<noteq> Inl RecursionError"
    by blast+
  note shorter = scanner_shorter [of n, THEN conjunct1, rule_format]
  have "scan_once (Suc n) s \<noteq> Inl RecursionError" if fuel: "2 * length s < Suc n" for s
  proof (cases s)
    case Nil
    then show ?thesis by simp
  next
    case (Cons c r0)
    with fuel skip_ws_length [of r0] have "2 * length (skip_ws r0) + 1 < n" by simp
    then have inner: "parse_array n [] (skip_ws r0) \<noteq> Inl RecursionError"
      "parse_object n [] (skip_ws r0) \<noteq> Inl RecursionError"
      by (rule ih_array, rule ih_object)
    consider (string) "c = CHR 0x22"
      | (object) "c \<noteq> CHR 0x22" "c = CHR ''{''"
      | (array) "c \<noteq> CHR 0x22" "c \<noteq> CHR ''{''" "c = CHR ''[''"
      | (other) "c \<noteq> CHR 0x22" "c \<noteq> CHR ''{''" "c \<noteq> CHR ''[''"
      by blast
    then show ?thesis
    proof cases
      case string
      with Cons scanstring_no_RecursionError [of "[]" r0] show ?thesis
        by (cases "scanstring [] r0") auto
    next
      case object
      with Cons inner(2) show ?thesis by simp
    next
      case array
      with Cons inner(1) show ?thesis by simp
    next
      case other
      have "scan_once (Suc n) s = match_number s \<or> (\<exists>p. scan_once (Suc n) s = Inr p)"
        using Cons other by simp
      with match_number_no_RecursionError [of s] show ?thesis
        by (auto simp del: scan_once.simps)
    qed
  qed
  moreover have "parse_array (Suc n) acc s \<noteq> Inl RecursionError"
    if fuel: "2 * length s + 1 < Suc n" for acc s
  proof (cases "scan_once n s")
    case (Inl e)
    from fuel have "2 * length s < n" by simp
    from ih_scan [OF this] Inl show ?thesis by simp
  next
    case (Inr p)
    obtain x r1 where p: "p = (x, r1)" by (cases p)
    with Inr shorter [of s x r1] have r1: "length r1 < length s" by simp
    show ?thesis
    proof (cases "take 1 (skip_ws r1) = '',''")
      case True
      from after_separator [OF True] r1 fuel
      have "2 * length (skip_ws (drop 1 (skip_ws r1))) + 1 < n" by simp
      from ih_array [OF this, of "acc @ [x]"] Inr p show ?thesis by simp
    next
      case False
      with Inr p show ?thesis by simp
    qed
  qed
  moreover have "parse_object (Suc n) acc s \<noteq> Inl RecursionError"
    if fuel: "2 * length s + 1 < Suc n" for acc s
  proof (cases "take 1 s = [CHR 0x22]")
    case False
    then show ?thesis by simp
  next
    case q: True
    show ?thesis
    proof (cases "scanstring [] (drop 1 s)")
      case (Inl e)
      with q scanstring_no_RecursionError [of "[]" "drop 1 s"] show ?thesis by simp
    next
      case (Inr p)
      obtain key r1 where p: "p = (key, r1)" by (cases p)
      with Inr scanstring_shorter [of "[]" "drop 1 s" key r1]
      have r1: "length r1 < length s" by simp
      show ?thesis
      proof (cases "take 1 (skip_ws r1) = '':''")
        case False
        with q Inr p show ?thesis by simp
      next
        case colon: True
        let ?s2 = "skip_ws (drop 1 (skip_ws r1))"
        from after_separator [OF colon] r1 have s2: "length ?s2 < length s" by simp
        show ?thesis
        proof (cases "scan_once n ?s2")
          case (Inl e)
          from s2 fuel have "2 * length ?s2 < n" by simp
          from ih_scan [OF this] Inl q Inr p colon show ?thesis by simp
        next
          case elem: (Inr p2)
          obtain x r2 where p2: "p2 = (x, r2)" by (cases p2)
          with elem shorter [of ?s2 x r2] s2 have r2: "length r2 < length s" by simp
          show ?thesis
          proof (cases "take 1 (skip_ws r2) = '',''")
            case True
            from after_separator [OF True] r2 fuel
            have "2 * length (skip_ws (drop 1 (skip_ws r2))) + 1 < n" by simp
            from ih_object [OF this, of "dict_set key x acc"] q Inr p colon elem p2
            show ?thesis by simp
          next
            case False
            with q Inr p colon elem p2 show ?thesis by simp
          qed
        qed
      qed
    qed
  qed
  ultimately show ?case by blast
qed

lemma json_loads_no_RecursionError: "json_loads s \<noteq> Inl RecursionError"
proof -
  have "2 * length (skip_ws s) < Suc (2 * length s)"
    using skip_ws_length [of s] by simp
  with scanner_fuel [of "Suc (2 * length s)"]
  have "scan_once (Suc (2 * length s)) (skip_ws s) \<noteq> Inl RecursionError" by blast
  then show ?thesis
    by (auto simp add: json_loads_def simp del: scan_once.simps split: sum.splits prod.splits)
qed

end
